theory Spec2Isabelle
  imports Complex_Main "HOL-Library.Word"
begin

section \<open>Data model (chrypto.go)\<close>

text \<open>
  Go's \<open>int64\<close> is a 64-bit word read in two's complement (\<open>sint\<close>); \<open>-\<close> wraps.
  A \<open>float64\<close> that came out of the JSON decoder is a finite number, and the program
  only compares it with \<open>0\<close> and stores it, so a price is modelled by the real number it
  denotes (both signed zeros denote \<open>0\<close>, as Go's \<open>== 0\<close> has it).
\<close>

type_synonym int64 = "64 word"

record Quote =
  Time :: int64
  Close :: real
  High :: real
  Low :: real
  Open :: real
  VolumeFrom :: real
  VolumeTo :: real

text \<open>The zero value \<open>Quote{}\<close>.\<close>

definition Quote_zero :: Quote where
  "Quote_zero = \<lparr>Time = 0, Close = 0, High = 0, Low = 0, Open = 0, VolumeFrom = 0, VolumeTo = 0\<rparr>"

text \<open>
  An \<open>error\<close> value is either a \<open>sqlite3.Error\<close>, of which the code reads the
  \<open>ExtendedCode\<close>, or any other error (the type assertion \<open>err.(sqlite3.Error)\<close> fails).
\<close>

datatype error = Sqlite3Error int | OtherError string

text \<open>The lines the program writes with the \<open>log\<close> package.\<close>

datatype log_entry =
    LogFatal error
  | LogParseError "error option"
  | LogCouldNotCreate string
  | LogTableCreationFailed string
  | LogDuplicate string int64
  | LogWriteFailed string
  | LogFetching string
  | LogGotAll string
  | LogError error

text \<open>The calls the program makes to its collaborators, in the order it makes them.\<close>

datatype call =
    HttpGet string int64
  | QueryRow string
  | ExecCreateTable string
  | DbBegin
  | TxExecInsert string Quote
  | TxCommit
  | Sleep500ms

text \<open>
  How a Go function call ends: it returns, it ends the process through \<open>log.Fatal\<close>
  (\<open>os.Exit(1)\<close>), or it panics on an index out of range.
\<close>

datatype 'a result = Returns 'a | Exits error | Panics

subsection \<open>The collaborators: remote API and store\<close>

text \<open>
  \<open>http.Get\<close> fails with an error, or gives a body. Of a body the program sees what
  \<open>Decode\<close> leaves in \<open>info.Data\<close> (nothing, or part of the records, when the body is
  malformed) and the error \<open>Decode\<close> returns.
\<close>

datatype http_result = HttpError error | HttpBody "Quote list" "error option"

text \<open>
  The database holds one table per name, rows in insertion order. SQLite compares table
  names without regard to the case of ASCII letters, so a table is kept under the
  upper-case form of the name it was created with: \<open>"btc"\<close> and \<open>"BTC"\<close> in
  \<open>CREATE TABLE\<close> or \<open>INSERT INTO\<close> name the same table.
\<close>

definition ascii_upper :: "char \<Rightarrow> char" where
  "ascii_upper c =
     (case map_of (zip ''abcdefghijklmnopqrstuvwxyz'' ''ABCDEFGHIJKLMNOPQRSTUVWXYZ'') c of
        None \<Rightarrow> c | Some u \<Rightarrow> u)"

definition table_key :: "string \<Rightarrow> string" where
  "table_key symbol = map ascii_upper symbol"

type_synonym tables = "string \<rightharpoonup> Quote list"

text \<open>
  What the store answers during one call of \<open>writeToDB\<close>, apart from the uniqueness of
  \<open>time\<close>, which the table's content decides.

  \<open>lookup f symbol t\<close> tells whether the query
  \<open>SELECT name FROM sqlite_master WHERE type="table" AND name="<symbol>"\<close> returns a row
  when the tables are \<open>t\<close>. The program writes the symbol between double quotes, which
  SQLite reads as a column where one has that name (\<open>name\<close>, \<open>type\<close>, ...) and as a text
  compared with regard to case otherwise; so the answer may differ from whether the
  table exists, and it is a parameter here. \<open>lookup_exact\<close> below says that it does not
  differ.

  The other fields are the errors the store raises: at the query, at \<open>CREATE TABLE\<close>,
  at \<open>db.Begin\<close>, at the insert of the batch's record at index \<open>i\<close>, and at the commit.
\<close>

record faults =
  lookup :: "string \<Rightarrow> tables \<Rightarrow> bool"
  query_fault :: "error option"
  create_fault :: "error option"
  begin_fault :: "error option"
  exec_fault :: "nat \<Rightarrow> error option"
  commit_fault :: "error option"

text \<open>
  The environment of a run: the answer of the remote API to the \<open>k\<close>-th request of an
  instrument's driver, the store's answers during its \<open>k\<close>-th write, and the clock read
  when the \<open>i\<close>-th driver is started.
\<close>

record env =
  http_Get :: "string \<Rightarrow> nat \<Rightarrow> int64 \<Rightarrow> http_result"
  db_faults :: "string \<Rightarrow> nat \<Rightarrow> faults"
  clock :: "nat \<Rightarrow> int64"

text \<open>
  The state the program acts on: the committed tables of the database, the log, and the
  trace of calls.
\<close>

record world =
  tables :: tables
  logs :: "log_entry list"
  calls :: "call list"

definition say :: "log_entry \<Rightarrow> world \<Rightarrow> world" where
  "say l w = w\<lparr>logs := logs w @ [l]\<rparr>"

definition called :: "call \<Rightarrow> world \<Rightarrow> world" where
  "called c w = w\<lparr>calls := calls w @ [c]\<rparr>"

text \<open>
  The store: the query answers as \<open>lookup\<close> says; \<open>CREATE TABLE\<close> fails when the
  table exists and otherwise takes effect at once (it is outside any transaction); an
  insert fails when the table does not exist, and fails with extended code 2067 when the
  table has the \<open>time\<close> already (the column is \<open>UNIQUE\<close>), within the transaction's
  own view; a transaction's inserts reach the tables when its commit succeeds.
\<close>

datatype scan = ScanOk | ErrNoRows | ScanError error

definition db_QueryRow_Scan :: "faults \<Rightarrow> string \<Rightarrow> world \<Rightarrow> scan \<times> world" where
  "db_QueryRow_Scan f symbol w =
     (case query_fault f of
        Some e \<Rightarrow> (ScanError e, called (QueryRow symbol) w)
      | None \<Rightarrow> (if lookup f symbol (tables w)
                 then (ScanOk, called (QueryRow symbol) w)
                 else (ErrNoRows, called (QueryRow symbol) w)))"

definition db_Exec_create :: "faults \<Rightarrow> string \<Rightarrow> world \<Rightarrow> error option \<times> world" where
  "db_Exec_create f symbol w =
     (case create_fault f of
        Some e \<Rightarrow> (Some e, called (ExecCreateTable symbol) w)
      | None \<Rightarrow> (case tables w (table_key symbol) of
                   Some _ \<Rightarrow> (Some (Sqlite3Error 1), called (ExecCreateTable symbol) w)
                 | None \<Rightarrow> (None, called (ExecCreateTable symbol)
                             (w\<lparr>tables := (tables w)(table_key symbol \<mapsto> [])\<rparr>))))"

definition tx_Exec_insert :: "faults \<Rightarrow> nat \<Rightarrow> string \<Rightarrow> Quote \<Rightarrow> tables \<Rightarrow> error option \<times> tables" where
  "tx_Exec_insert f i symbol q tx =
     (case exec_fault f i of
        Some e \<Rightarrow> (Some e, tx)
      | None \<Rightarrow> (case tx (table_key symbol) of
                   None \<Rightarrow> (Some (Sqlite3Error 1), tx)
                 | Some rows \<Rightarrow>
                     if Time q \<in> set (map Time rows) then (Some (Sqlite3Error 2067), tx)
                     else (None, tx(table_key symbol \<mapsto> rows @ [q]))))"

definition tx_Commit :: "faults \<Rightarrow> tables \<Rightarrow> world \<Rightarrow> error option \<times> world" where
  "tx_Commit f tx w =
     (case commit_fault f of
        Some e \<Rightarrow> (Some e, called TxCommit w)
      | None \<Rightarrow> (None, called TxCommit (w\<lparr>tables := tx\<rparr>)))"

section \<open>The program\<close>

subsection \<open>get\<close>

text \<open>
  \<open>get\<close> ends the process when \<open>http.Get\<close> fails. Otherwise it decodes the body; the
  statement \<open>if json.NewDecoder(res.Body).Decode(&info); err != nil\<close> runs \<open>Decode\<close> as
  its init statement and tests \<open>err\<close>, the error of \<open>http.Get\<close>, which is \<open>nil\<close> on
  this path.
\<close>

definition get :: "env \<Rightarrow> nat \<Rightarrow> string \<Rightarrow> int64 \<Rightarrow> world \<Rightarrow> Quote list result \<times> world" where
  "get e k symbol time w =
     (case http_Get e symbol k time of
        HttpError err \<Rightarrow> (Exits err, say (LogFatal err) (called (HttpGet symbol time) w))
      | HttpBody info_Data decode_err \<Rightarrow>
          (let err = (None :: error option);
               w1 = called (HttpGet symbol time) w;
               w2 = (if err \<noteq> None then say (LogParseError err) w1 else w1)
           in (Returns info_Data, w2)))"

subsection \<open>createTable, createTableIfNeeded\<close>

definition createTable :: "faults \<Rightarrow> string \<Rightarrow> world \<Rightarrow> error option \<times> world" where
  "createTable f symbol w =
     (case db_Exec_create f symbol w of
        (Some err, w1) \<Rightarrow> (Some err, say (LogCouldNotCreate symbol) w1)
      | (None, w1) \<Rightarrow> (None, w1))"

definition createTableIfNeeded :: "faults \<Rightarrow> string \<Rightarrow> world \<Rightarrow> (bool \<times> error option) \<times> world" where
  "createTableIfNeeded f symbol w =
     (case db_QueryRow_Scan f symbol w of
        (ErrNoRows, w1) \<Rightarrow>
          (case createTable f symbol w1 of
             (Some err, w2) \<Rightarrow> ((False, Some err), w2)
           | (None, w2) \<Rightarrow> ((True, None), w2))
      | (ScanError err, w1) \<Rightarrow> ((False, Some err), w1)
      | (ScanOk, w1) \<Rightarrow> ((False, None), w1))"

subsection \<open>isDummyQuote\<close>

definition isDummyQuote :: "Quote \<Rightarrow> bool" where
  "isDummyQuote quote =
     (if (Open quote = 0) \<and> (Close quote = 0) \<and> (High quote = 0) \<and> (Low quote = 0)
      then True else False)"

subsection \<open>writeToDB\<close>

text \<open>
  The \<open>for _, q := range quotes\<close> loop, from index \<open>i\<close> on, on the open transaction
  \<open>tx\<close>: \<open>break\<close> at a dummy quote, \<open>continue\<close> on extended code 2067, \<open>return\<close>
  on any other error. \<open>Inl err\<close> is the early return of \<open>writeToDB\<close> with \<open>err\<close>,
  \<open>Inr tx\<close> the loop's normal end.
\<close>

fun insert_loop ::
  "faults \<Rightarrow> string \<Rightarrow> nat \<Rightarrow> Quote list \<Rightarrow> tables \<Rightarrow> world \<Rightarrow> (error + tables) \<times> world" where
  "insert_loop f symbol i [] tx w = (Inr tx, w)"
| "insert_loop f symbol i (q # qs) tx w =
     (if isDummyQuote q then (Inr tx, w)
      else
        (case tx_Exec_insert f i symbol q tx of
           (None, tx1) \<Rightarrow> insert_loop f symbol (Suc i) qs tx1 (called (TxExecInsert symbol q) w)
         | (Some err, tx1) \<Rightarrow>
             (case err of
                OtherError _ \<Rightarrow> (Inl err, called (TxExecInsert symbol q) w)
              | Sqlite3Error ExtendedCode \<Rightarrow>
                  if ExtendedCode = 2067
                  then insert_loop f symbol (Suc i) qs tx1
                         (say (LogDuplicate symbol (Time q)) (called (TxExecInsert symbol q) w))
                  else (Inl err, say (LogWriteFailed symbol) (called (TxExecInsert symbol q) w)))))"

text \<open>
  \<open>writeToDB\<close> returns a pair \<open>(Quote, error)\<close>; \<open>None\<close> is the \<open>nil\<close> error. The
  result of \<open>tx.Commit()\<close> is dropped. \<open>quotes[0]\<close> panics on an empty slice.
\<close>

definition writeToDB ::
  "faults \<Rightarrow> Quote list \<Rightarrow> string \<Rightarrow> world \<Rightarrow> (Quote \<times> error option) result \<times> world" where
  "writeToDB f quotes symbol w =
     (case createTableIfNeeded f symbol w of
        ((_, Some err), w1) \<Rightarrow>
          (Returns (Quote_zero, Some err), say (LogTableCreationFailed symbol) w1)
      | ((_, None), w1) \<Rightarrow>
          (case begin_fault f of
             Some err \<Rightarrow> (Returns (Quote_zero, Some err), called DbBegin w1)
           | None \<Rightarrow>
               (case insert_loop f symbol 0 quotes (tables w1) (called DbBegin w1) of
                  (Inl err, w2) \<Rightarrow> (Returns (Quote_zero, Some err), w2)
                | (Inr tx, w2) \<Rightarrow>
                    (let w3 = snd (tx_Commit f tx w2)
                     in (case quotes of
                           [] \<Rightarrow> (Panics, w3)
                         | earliest # _ \<Rightarrow> (Returns (earliest, None), w3))))))"

subsection \<open>getHistoricalFor\<close>

text \<open>
  One driver, up to the signal it sends: \<open>Done\<close> is the send on \<open>donec\<close>, \<open>Failed\<close>
  the send on \<open>errc\<close>. The function calls itself once per page without bound, so the
  model takes fuel: the number of pages it may fetch. \<open>k\<close> counts the pages fetched so
  far. \<open>data[len(data)-1]\<close> panics on an empty slice.
\<close>

datatype outcome = Done string | Failed error | ProcessExit error | Panicked | OutOfFuel

fun getHistoricalFor ::
  "env \<Rightarrow> nat \<Rightarrow> nat \<Rightarrow> string \<Rightarrow> int64 \<Rightarrow> world \<Rightarrow> outcome \<times> world" where
  "getHistoricalFor e 0 k symbol unixtime w = (OutOfFuel, w)"
| "getHistoricalFor e (Suc fuel) k symbol unixtime w =
     (case get e k symbol unixtime w of
        (Exits err, w1) \<Rightarrow> (ProcessExit err, w1)
      | (Panics, w1) \<Rightarrow> (Panicked, w1)
      | (Returns data, w1) \<Rightarrow>
          if data = [] then (Panicked, w1)
          else if isDummyQuote (last data) then (Done symbol, w1)
          else
            (case writeToDB (db_faults e symbol k) data symbol w1 of
               (Exits err, w2) \<Rightarrow> (ProcessExit err, w2)
             | (Panics, w2) \<Rightarrow> (Panicked, w2)
             | (Returns (earliest, Some err), w2) \<Rightarrow> (Failed err, w2)
             | (Returns (earliest, None), w2) \<Rightarrow>
                 (let untilDate = Time earliest - 1
                  in getHistoricalFor e fuel (Suc k) symbol untilDate (called Sleep500ms w2))))"

subsection \<open>main\<close>

text \<open>
  One pass through the body of \<open>getHistoricalFor\<close>, up to the signal it sends or the
  call of itself: \<open>Inl\<close> is the end of the driver, \<open>Inr untilDate\<close> the recursive call.
\<close>

definition getHistoricalFor_pass ::
  "env \<Rightarrow> nat \<Rightarrow> string \<Rightarrow> int64 \<Rightarrow> world \<Rightarrow> (outcome + int64) \<times> world" where
  "getHistoricalFor_pass e k symbol unixtime w =
     (case get e k symbol unixtime w of
        (Exits err, w1) \<Rightarrow> (Inl (ProcessExit err), w1)
      | (Panics, w1) \<Rightarrow> (Inl Panicked, w1)
      | (Returns data, w1) \<Rightarrow>
          if data = [] then (Inl Panicked, w1)
          else if isDummyQuote (last data) then (Inl (Done symbol), w1)
          else
            (case writeToDB (db_faults e symbol k) data symbol w1 of
               (Exits err, w2) \<Rightarrow> (Inl (ProcessExit err), w2)
             | (Panics, w2) \<Rightarrow> (Inl Panicked, w2)
             | (Returns (earliest, Some err), w2) \<Rightarrow> (Inl (Failed err), w2)
             | (Returns (earliest, None), w2) \<Rightarrow>
                 (let untilDate = Time earliest - 1
                  in (Inr untilDate, called Sleep500ms w2))))"

text \<open>
  \<open>main\<close> from \<open>symbols := flag.Args()\<close> on. \<open>main\<close> starts one goroutine per symbol
  and then receives one signal per symbol; the goroutines run concurrently with it and
  with each other. The process is a state and the turns taken on it, in any order:
  \<^item> \<open>Launch\<close>: \<open>main\<close> logs the next symbol and starts its goroutine, reading the clock;
  \<^item> \<open>Step i\<close>: the \<open>i\<close>-th goroutine, when it is running, makes one pass through the
    body of \<open>getHistoricalFor\<close>; a pass that ends in a send leaves it waiting on the
    channel, one that ends the process (\<open>log.Fatal\<close>, status 1; a panic, status 2) ends
    every goroutine. A pass is one turn: goroutines interleave between passes;
  \<^item> \<open>Receive i\<close>: \<open>main\<close>, in its \<open>select\<close>, receives the signal the \<open>i\<close>-th
    goroutine is waiting to send, and logs it;
  \<^item> \<open>Return\<close>: \<open>main\<close> has received one signal per symbol and returns (status 0).
  A turn that is not possible in a state leaves it as it is. The channels are unbuffered,
  so a signal is received only once \<open>main\<close> has started every goroutine.
\<close>

datatype signal = OnDonec string | OnErrc error

datatype goroutine = Running string nat int64 | Sending signal | Ended

datatype status = Exit0 | Exit1 | Exit2

datatype turn = Launch | Step nat | Receive nat | Return

record process =
  state :: world
  pending :: "string list"
  launched :: nat
  routines :: "goroutine list"
  received :: nat
  total :: nat
  exited :: "status option"

definition after_pass :: "process \<Rightarrow> nat \<Rightarrow> string \<Rightarrow> nat \<Rightarrow> (outcome + int64) \<times> world \<Rightarrow> process" where
  "after_pass p i symbol k r =
     (case r of
        (Inr untilDate, w) \<Rightarrow>
          p\<lparr>state := w, routines := (routines p)[i := Running symbol (Suc k) untilDate]\<rparr>
      | (Inl (Done done), w) \<Rightarrow>
          p\<lparr>state := w, routines := (routines p)[i := Sending (OnDonec done)]\<rparr>
      | (Inl (Failed err), w) \<Rightarrow>
          p\<lparr>state := w, routines := (routines p)[i := Sending (OnErrc err)]\<rparr>
      | (Inl (ProcessExit err), w) \<Rightarrow> p\<lparr>state := w, exited := Some Exit1\<rparr>
      | (Inl Panicked, w) \<Rightarrow> p\<lparr>state := w, exited := Some Exit2\<rparr>
      | (Inl OutOfFuel, w) \<Rightarrow> p)"

definition take_turn :: "env \<Rightarrow> turn \<Rightarrow> process \<Rightarrow> process" where
  "take_turn e t p =
     (if exited p \<noteq> None then p
      else
        (case t of
           Launch \<Rightarrow>
             (case pending p of
                [] \<Rightarrow> p
              | symbol # rest \<Rightarrow>
                  p\<lparr>state := say (LogFetching symbol) (state p), pending := rest,
                    launched := Suc (launched p),
                    routines := routines p @ [Running symbol 0 (clock e (launched p))]\<rparr>)
         | Step i \<Rightarrow>
             (if i < length (routines p)
              then (case routines p ! i of
                      Running symbol k unixtime \<Rightarrow>
                        after_pass p i symbol k (getHistoricalFor_pass e k symbol unixtime (state p))
                    | Sending sig \<Rightarrow> p
                    | Ended \<Rightarrow> p)
              else p)
         | Receive i \<Rightarrow>
             (if pending p = [] \<and> received p < total p \<and> i < length (routines p)
              then (case routines p ! i of
                      Sending (OnDonec done) \<Rightarrow>
                        p\<lparr>state := say (LogGotAll done) (state p),
                          routines := (routines p)[i := Ended], received := Suc (received p)\<rparr>
                    | Sending (OnErrc err) \<Rightarrow>
                        p\<lparr>state := say (LogError err) (state p),
                          routines := (routines p)[i := Ended], received := Suc (received p)\<rparr>
                    | Running symbol k unixtime \<Rightarrow> p
                    | Ended \<Rightarrow> p)
              else p)
         | Return \<Rightarrow>
             (if pending p = [] \<and> received p = total p then p\<lparr>exited := Some Exit0\<rparr> else p)))"

fun run :: "env \<Rightarrow> turn list \<Rightarrow> process \<Rightarrow> process" where
  "run e [] p = p"
| "run e (t # ts) p = run e ts (take_turn e t p)"

definition main :: "env \<Rightarrow> turn list \<Rightarrow> string list \<Rightarrow> world \<Rightarrow> process" where
  "main e turns symbols w =
     run e turns
       \<lparr>state = w, pending = symbols, launched = 0, routines = [], received = 0,
        total = length symbols, exited = None\<rparr>"

section \<open>Notions used to state the properties\<close>

text \<open>The part of a batch before its first dummy quote.\<close>

abbreviation real_prefix :: "Quote list \<Rightarrow> Quote list" where
  "real_prefix quotes \<equiv> takeWhile (\<lambda>q. \<not> isDummyQuote q) quotes"

text \<open>The rows of an instrument's table; none when the table does not exist.\<close>

definition rows_of :: "tables \<Rightarrow> string \<Rightarrow> Quote list" where
  "rows_of t symbol = (case t (table_key symbol) of None \<Rightarrow> [] | Some rows \<Rightarrow> rows)"

text \<open>The store's lookup of the symbol's table tells whether the table exists.\<close>

definition lookup_exact :: "faults \<Rightarrow> string \<Rightarrow> tables \<Rightarrow> bool" where
  "lookup_exact f symbol t = (lookup f symbol t = (t (table_key symbol) \<noteq> None))"

text \<open>
  The record at index \<open>n\<close> of a batch conflicts when its time is already in the table
  or belongs to a record earlier in the batch.
\<close>

definition conflicts_at :: "Quote list \<Rightarrow> Quote list \<Rightarrow> nat \<Rightarrow> bool" where
  "conflicts_at rows qs n = (Time (qs ! n) \<in> Time ` set rows \<union> Time ` set (take n qs))"

text \<open>The calls made between two states, and the cursors of the fetches among calls.\<close>

definition new_calls :: "world \<Rightarrow> world \<Rightarrow> call list" where
  "new_calls w w' = drop (length (calls w)) (calls w')"

fun fetch_times :: "call list \<Rightarrow> int64 list" where
  "fetch_times [] = []"
| "fetch_times (HttpGet symbol t # cs) = t # fetch_times cs"
| "fetch_times (c # cs) = fetch_times cs"

text \<open>The least \<open>int64\<close>, \<open>-2^63\<close>.\<close>

definition min_int64 :: int64 where
  "min_int64 = 0x8000000000000000"

text \<open>
  Every quote of every page the remote API returns for an instrument has a time at most
  the time requested; and no page starts with a quote at the least \<open>int64\<close>.
\<close>

definition pages_bounded :: "env \<Rightarrow> string \<Rightarrow> bool" where
  "pages_bounded e symbol =
     (\<forall>k t data derr. http_Get e symbol k t = HttpBody data derr \<longrightarrow>
        (\<forall>q\<in>set data. sint (Time q) \<le> sint t))"

definition first_above_min :: "env \<Rightarrow> string \<Rightarrow> bool" where
  "first_above_min e symbol =
     (\<forall>k t data derr. http_Get e symbol k t = HttpBody data derr \<longrightarrow>
        data \<noteq> [] \<longrightarrow> Time (hd data) \<noteq> min_int64)"

subsection \<open>Concrete data\<close>

definition quote_at :: "int64 \<Rightarrow> Quote" where
  "quote_at t = \<lparr>Time = t, Close = 3, High = 4, Low = 1, Open = 2, VolumeFrom = 5, VolumeTo = 6\<rparr>"

definition dummy_at :: "int64 \<Rightarrow> Quote" where
  "dummy_at t = \<lparr>Time = t, Close = 0, High = 0, Low = 0, Open = 0, VolumeFrom = 0, VolumeTo = 0\<rparr>"

text \<open>The store that answers every lookup exactly and raises no error.\<close>

definition no_faults :: faults where
  "no_faults = \<lparr>lookup = (\<lambda>symbol t. t (table_key symbol) \<noteq> None),
                 query_fault = None, create_fault = None, begin_fault = None,
                 exec_fault = (\<lambda>i. None), commit_fault = None\<rparr>"

definition empty_world :: world where
  "empty_world = \<lparr>tables = Map.empty, logs = [], calls = []\<rparr>"

text \<open>The store that fails at the insert of the record at index \<open>n\<close> only.\<close>

definition fault_at :: "nat \<Rightarrow> error \<Rightarrow> faults" where
  "fault_at n err = no_faults\<lparr>exec_fault := (\<lambda>i. if i = n then Some err else None)\<rparr>"

text \<open>A database that already holds one row of BTC, at time 10.\<close>

definition stale_row :: Quote where
  "stale_row = \<lparr>Time = 10, Close = 30, High = 40, Low = 10, Open = 20, VolumeFrom = 50, VolumeTo = 60\<rparr>"

definition btc_world :: world where
  "btc_world = \<lparr>tables = [''BTC'' \<mapsto> [stale_row]], logs = [], calls = []\<rparr>"

text \<open>
  An environment whose remote API answers the \<open>k\<close>-th request for an instrument with
  \<open>pages symbol k\<close>, whatever the time requested.
\<close>

definition env_of :: "(string \<Rightarrow> nat \<Rightarrow> http_result) \<Rightarrow> (string \<Rightarrow> nat \<Rightarrow> faults) \<Rightarrow> env" where
  "env_of pages fs = \<lparr>http_Get = (\<lambda>symbol k t. pages symbol k), db_faults = fs, clock = (\<lambda>i. 1000)\<rparr>"

text \<open>The remote API answers every request with the same body; the store raises no fault.\<close>

definition one_page :: "Quote list \<Rightarrow> error option \<Rightarrow> env" where
  "one_page data derr = env_of (\<lambda>symbol k. HttpBody data derr) (\<lambda>symbol k. no_faults)"

text \<open>The requests for BTC fail in transport; any other instrument has no history.\<close>

definition btc_down :: env where
  "btc_down =
     env_of (\<lambda>symbol k. if symbol = ''BTC'' then HttpError (OtherError ''network is unreachable'')
                         else HttpBody [dummy_at 0] None)
            (\<lambda>symbol k. no_faults)"

text \<open>
  The first body is malformed: the decoder fills one record and returns an error. The
  bodies after it are well formed and hold one dummy quote.
\<close>

definition garbled_first :: env where
  "garbled_first =
     env_of (\<lambda>symbol k. if k = 0 then HttpBody [quote_at 10] (Some (OtherError ''json: cannot unmarshal''))
                         else HttpBody [dummy_at 0] None)
            (\<lambda>symbol k. no_faults)"

text \<open>
  The first page holds one real quote, the pages after it one dummy quote; every commit
  fails.
\<close>

definition commit_fails :: env where
  "commit_fails =
     env_of (\<lambda>symbol k. if k = 0 then HttpBody [quote_at 10] None else HttpBody [dummy_at 0] None)
            (\<lambda>symbol k. no_faults\<lparr>commit_fault := Some (OtherError ''database is locked'')\<rparr>)"

text \<open>
  The remote API answers a request at time \<open>t\<close> with the one quote at \<open>t\<close>, and with
  an empty page at the least \<open>int64\<close>.
\<close>

definition echo_env :: env where
  "echo_env =
     \<lparr>http_Get = (\<lambda>symbol k t. if t = min_int64 then HttpBody [] None
                                else HttpBody [quote_at t] None),
      db_faults = (\<lambda>symbol k. no_faults), clock = (\<lambda>i. 1000)\<rparr>"

text \<open>The same environment with every body well formed: the decoder returns no error.\<close>

fun drop_decode_error :: "http_result \<Rightarrow> http_result" where
  "drop_decode_error (HttpBody data derr) = HttpBody data None"
| "drop_decode_error (HttpError err) = HttpError err"

definition well_decoded :: "env \<Rightarrow> env" where
  "well_decoded e = e\<lparr>http_Get := (\<lambda>symbol k t. drop_decode_error (http_Get e symbol k t))\<rparr>"

section \<open>Basic facts\<close>

lemma table_key_tickers [simp]: "table_key ''BTC'' = ''BTC''" "table_key ''ETH'' = ''ETH''"
  by (simp_all add: table_key_def ascii_upper_def)

lemma tables_say [simp]: "tables (say l w) = tables w"
  and calls_say [simp]: "calls (say l w) = calls w"
  and logs_say [simp]: "logs (say l w) = logs w @ [l]"
  by (simp_all add: say_def)

lemma tables_called [simp]: "tables (called c w) = tables w"
  and calls_called [simp]: "calls (called c w) = calls w @ [c]"
  and logs_called [simp]: "logs (called c w) = logs w"
  by (simp_all add: called_def)

lemma insert_loop_prefix:
  "insert_loop f symbol i quotes tx w = insert_loop f symbol i (real_prefix quotes) tx w"
  by (induction quotes arbitrary: i tx w)
     (auto split: prod.splits option.splits error.splits)

lemma insert_loop_tables: "tables (snd (insert_loop f symbol i quotes tx w)) = tables w"
  by (induction quotes arbitrary: i tx w)
     (auto split: prod.splits option.splits error.splits)

lemma insert_loop_calls:
  "\<exists>cs. calls (snd (insert_loop f symbol i quotes tx w)) = calls w @ cs \<and> TxCommit \<notin> set cs \<and> DbBegin \<notin> set cs"
proof (induction quotes arbitrary: i tx w)
  case Nil
  then show ?case by simp
next
  case (Cons q qs)
  show ?case
  proof (cases "isDummyQuote q")
    case True
    then show ?thesis by simp
  next
    case False
    obtain r tx1 where ex: "tx_Exec_insert f i symbol q tx = (r, tx1)" by (cases "tx_Exec_insert f i symbol q tx")
    show ?thesis
    proof (cases r)
      case None
      from Cons.IH [of "Suc i" tx1 "called (TxExecInsert symbol q) w"]
      show ?thesis using False ex None by auto
    next
      case (Some err)
      show ?thesis
      proof (cases err)
        case (Sqlite3Error c)
        from Cons.IH [of "Suc i" tx1 "say (LogDuplicate symbol (Time q)) (called (TxExecInsert symbol q) w)"]
        show ?thesis using False ex Some Sqlite3Error by auto
      next
        case (OtherError s)
        then show ?thesis using False ex Some by auto
      qed
    qed
  qed
qed

lemma tx_Exec_insert_cases:
  assumes "tx (table_key symbol) = Some rows" and "tx_Exec_insert f i symbol q tx = (r, tx1)"
  shows "(r \<noteq> None \<and> tx1 = tx) \<or>
         (r = None \<and> tx1 = tx(table_key symbol \<mapsto> rows @ [q]) \<and> Time q \<notin> Time ` set rows \<and> exec_fault f i = None)"
  using assms by (auto simp: tx_Exec_insert_def split: option.splits if_splits)

lemma insert_loop_step:
  assumes "\<not> isDummyQuote q"
  shows "insert_loop f symbol i (q # qs) tx w =
     (case tx_Exec_insert f i symbol q tx of
        (None, tx1) \<Rightarrow> insert_loop f symbol (Suc i) qs tx1 (called (TxExecInsert symbol q) w)
      | (Some (Sqlite3Error c), tx1) \<Rightarrow>
          if c = 2067
          then insert_loop f symbol (Suc i) qs tx1
                 (say (LogDuplicate symbol (Time q)) (called (TxExecInsert symbol q) w))
          else (Inl (Sqlite3Error c), say (LogWriteFailed symbol) (called (TxExecInsert symbol q) w))
      | (Some (OtherError m), tx1) \<Rightarrow> (Inl (OtherError m), called (TxExecInsert symbol q) w))"
  using assms by (simp split: prod.splits option.splits error.splits)

lemma insert_loop_rows:
  "insert_loop f symbol i quotes tx w = (Inr tx', w') \<Longrightarrow> tx (table_key symbol) = Some rows \<Longrightarrow>
   \<exists>added. tx' = tx(table_key symbol \<mapsto> rows @ added) \<and> set added \<subseteq> set (real_prefix quotes)"
proof (induction quotes arbitrary: i tx w rows)
  case Nil
  then show ?case by auto
next
  case (Cons q qs)
  show ?case
  proof (cases "isDummyQuote q")
    case True
    then show ?thesis using Cons.prems by auto
  next
    case False
    obtain r tx1 where ex: "tx_Exec_insert f i symbol q tx = (r, tx1)"
      by (cases "tx_Exec_insert f i symbol q tx")
    from tx_Exec_insert_cases [OF Cons.prems(2) ex]
    consider (skip) "r \<noteq> None" "tx1 = tx"
      | (ins) "r = None" "tx1 = tx(table_key symbol \<mapsto> rows @ [q])" by blast
    then show ?thesis
    proof cases
      case skip
      then obtain w1 where "insert_loop f symbol (Suc i) qs tx w1 = (Inr tx', w')"
        using Cons.prems(1) ex False
        by (auto simp: insert_loop_step simp del: insert_loop.simps split: error.splits if_splits)
      from Cons.IH [OF this Cons.prems(2)] show ?thesis using False by auto
    next
      case ins
      then have run: "insert_loop f symbol (Suc i) qs tx1 (called (TxExecInsert symbol q) w) = (Inr tx', w')"
        using Cons.prems(1) ex False by (simp add: insert_loop_step del: insert_loop.simps)
      have "tx1 (table_key symbol) = Some (rows @ [q])" using ins by simp
      from Cons.IH [OF run this] obtain added where
        "tx' = tx1(table_key symbol \<mapsto> (rows @ [q]) @ added)" "set added \<subseteq> set (real_prefix qs)" by blast
      then have "tx' = tx(table_key symbol \<mapsto> rows @ (q # added)) \<and> set (q # added) \<subseteq> set (real_prefix (q # qs))"
        using ins False by auto
      then show ?thesis by blast
    qed
  qed
qed

lemma conflicts_at_0: "conflicts_at rows (q # qs) 0 = (Time q \<in> Time ` set rows)"
  by (simp add: conflicts_at_def)

lemma conflicts_at_Suc_new:
  "conflicts_at rows (q # qs) (Suc n) = conflicts_at (rows @ [q]) qs n"
  by (auto simp: conflicts_at_def)

lemma conflicts_at_Suc_old:
  "Time q \<in> Time ` set rows \<Longrightarrow> conflicts_at rows (q # qs) (Suc n) = conflicts_at rows qs n"
  by (auto simp: conflicts_at_def)

lemma insert_loop_no_fault:
  assumes nf: "\<forall>j. exec_fault f j = None"
  shows "\<forall>q\<in>set qs. \<not> isDummyQuote q \<Longrightarrow> tx (table_key symbol) = Some rows \<Longrightarrow>
    insert_loop f symbol i qs tx w =
      (Inr (tx(table_key symbol \<mapsto> rows @ nths qs {n. \<not> conflicts_at rows qs n})),
       w\<lparr>logs := logs w @ map (\<lambda>q. LogDuplicate symbol (Time q)) (nths qs {n. conflicts_at rows qs n}),
         calls := calls w @ map (TxExecInsert symbol) qs\<rparr>)"
proof (induction qs arbitrary: i tx w rows)
  case Nil
  then show ?case by (auto simp: fun_eq_iff)
next
  case (Cons q qs)
  have nd: "\<not> isDummyQuote q" and rest: "\<forall>q\<in>set qs. \<not> isDummyQuote q"
    using Cons.prems(1) by simp_all
  show ?case
  proof (cases "Time q \<in> Time ` set rows")
    case True
    let ?w1 = "say (LogDuplicate symbol (Time q)) (called (TxExecInsert symbol q) w)"
    have ex: "tx_Exec_insert f i symbol q tx = (Some (Sqlite3Error 2067), tx)"
      using nf Cons.prems(2) True by (simp add: tx_Exec_insert_def)
    note run = Cons.IH [where tx=tx and rows=rows and i="Suc i" and w="?w1", OF rest Cons.prems(2)]
    have step: "insert_loop f symbol i (q # qs) tx w = insert_loop f symbol (Suc i) qs tx ?w1"
      using nd ex by (simp add: insert_loop_step del: insert_loop.simps)
    show ?thesis
      unfolding step run using True
      by (auto simp add: nths_Cons conflicts_at_0 conflicts_at_Suc_old say_def called_def fun_eq_iff)
  next
    case False
    let ?w1 = "called (TxExecInsert symbol q) w"
    let ?tx1 = "tx(table_key symbol \<mapsto> rows @ [q])"
    have ex: "tx_Exec_insert f i symbol q tx = (None, ?tx1)"
      using nf Cons.prems(2) False by (simp add: tx_Exec_insert_def)
    have "?tx1 (table_key symbol) = Some (rows @ [q])" by simp
    note run = Cons.IH [where tx="?tx1" and rows="rows @ [q]" and i="Suc i" and w="?w1", OF rest this]
    have step: "insert_loop f symbol i (q # qs) tx w = insert_loop f symbol (Suc i) qs ?tx1 ?w1"
      using nd ex by (simp add: insert_loop_step del: insert_loop.simps)
    show ?thesis
      unfolding step run using False
      by (auto simp add: nths_Cons conflicts_at_0 conflicts_at_Suc_new called_def fun_eq_iff)
  qed
qed

lemma no_conflicts_at:
  assumes "distinct (map Time qs)" "Time ` set qs \<inter> Time ` set rows = {}" "n < length qs"
  shows "\<not> conflicts_at rows qs n"
proof
  assume "conflicts_at rows qs n"
  then consider "Time (qs ! n) \<in> Time ` set rows" | "Time (qs ! n) \<in> Time ` set (take n qs)"
    by (auto simp: conflicts_at_def)
  then show False
  proof cases
    case 1
    moreover have "Time (qs ! n) \<in> Time ` set qs" using assms(3) by simp
    ultimately show ?thesis using assms(2) by blast
  next
    case 2
    then obtain m where m: "m < n" "Time (qs ! m) = Time (qs ! n)"
      using assms(3) by (auto simp: in_set_conv_nth)
    have "(map Time qs ! m = map Time qs ! n) = (m = n)"
      using assms(1,3) m(1) by (intro nth_eq_iff_index_eq) simp_all
    then show ?thesis using m assms(3) by simp
  qed
qed

lemma insert_loop_no_conflict:
  assumes "\<forall>j. exec_fault f j = None" "\<forall>q\<in>set qs. \<not> isDummyQuote q" "tx (table_key symbol) = Some rows"
    "distinct (map Time qs)" "Time ` set qs \<inter> Time ` set rows = {}"
  shows "fst (insert_loop f symbol i qs tx w) = Inr (tx(table_key symbol \<mapsto> rows @ qs))"
proof -
  have "nths qs {n. \<not> conflicts_at rows qs n} = qs"
    using no_conflicts_at [OF assms(4,5)] by (intro nths_all) simp
  then show ?thesis
    by (simp add: insert_loop_no_fault [where tx=tx and symbol=symbol and rows=rows, OF assms(1-3)])
qed

section \<open>Sentinel detection\<close>

text \<open>
  C8. \<open>isDummyQuote\<close> holds of a quote exactly when its open, high, low and close are
  all zero; the time and the two volumes have no part in it.
\<close>

theorem isDummyQuote_iff:
  "isDummyQuote q = (Open q = 0 \<and> High q = 0 \<and> Low q = 0 \<and> Close q = 0)
   \<and> isDummyQuote (q\<lparr>VolumeFrom := vf, VolumeTo := vt\<rparr>) = isDummyQuote q"
  by (auto simp: isDummyQuote_def)

lemma rows_of_upd [simp]:
  "rows_of (t(table_key symbol \<mapsto> rows)) s
     = (if table_key s = table_key symbol then rows else rows_of t s)"
  by (simp add: rows_of_def)

lemma rows_of_Some: "t (table_key symbol) = Some rows \<Longrightarrow> rows_of t symbol = rows"
  by (simp add: rows_of_def)

lemma tx_Exec_insert_absent:
  assumes "tx (table_key symbol) = None"
  shows "\<exists>err. tx_Exec_insert f i symbol q tx = (Some err, tx)"
  using assms by (simp add: tx_Exec_insert_def split: option.splits)

lemma insert_loop_absent:
  "tx (table_key symbol) = None \<Longrightarrow> insert_loop f symbol i quotes tx w = (Inr tx', w') \<Longrightarrow>
   tx' = tx"
proof (induction quotes arbitrary: i w)
  case Nil
  then show ?case by simp
next
  case (Cons q qs)
  show ?case
  proof (cases "isDummyQuote q")
    case True
    then show ?thesis using Cons.prems by simp
  next
    case False
    from tx_Exec_insert_absent [where tx=tx and symbol=symbol, OF Cons.prems(1)] obtain err where
      ex: "tx_Exec_insert f i symbol q tx = (Some err, tx)" by blast
    then obtain w1 where "insert_loop f symbol (Suc i) qs tx w1 = (Inr tx', w')"
      using Cons.prems(2) False
      by (cases err) (auto simp: insert_loop_step simp del: insert_loop.simps split: if_splits)
    from Cons.IH [OF Cons.prems(1) this] show ?thesis .
  qed
qed

lemma createTableIfNeeded_effect:
  assumes "createTableIfNeeded f symbol w = ((b, r), w1)"
  shows "(\<forall>s. rows_of (tables w1) s = rows_of (tables w) s)"
    and "r = None \<Longrightarrow> lookup_exact f symbol (tables w) \<Longrightarrow>
         tables w1 (table_key symbol) = Some (rows_of (tables w) symbol)"
    and "\<exists>cs. calls w1 = calls w @ cs \<and> set cs \<subseteq> {QueryRow symbol, ExecCreateTable symbol}"
  using assms
  by (auto simp: createTableIfNeeded_def createTable_def db_QueryRow_Scan_def db_Exec_create_def
        rows_of_def lookup_exact_def split: option.splits prod.splits scan.splits if_splits)

lemma createTableIfNeeded_ok:
  assumes "query_fault f = None" "create_fault f = None" "lookup_exact f symbol (tables w)"
  shows "\<exists>b w1. createTableIfNeeded f symbol w = ((b, None), w1)"
  using assms
  by (auto simp: createTableIfNeeded_def createTable_def db_QueryRow_Scan_def db_Exec_create_def
        lookup_exact_def split: option.splits prod.splits scan.splits)

lemma insert_loop_calls_exact:
  "\<exists>cs. calls (snd (insert_loop f symbol i quotes tx w)) = calls w @ cs \<and>
     set cs \<subseteq> range (TxExecInsert symbol)"
proof (induction quotes arbitrary: i tx w)
  case Nil
  then show ?case by simp
next
  case (Cons q qs)
  show ?case
  proof (cases "isDummyQuote q")
    case True
    then show ?thesis by simp
  next
    case False
    obtain r tx1 where ex: "tx_Exec_insert f i symbol q tx = (r, tx1)"
      by (cases "tx_Exec_insert f i symbol q tx")
    show ?thesis
    proof (cases r)
      case None
      from Cons.IH [of "Suc i" tx1 "called (TxExecInsert symbol q) w"]
      show ?thesis using False ex None by auto
    next
      case (Some err)
      show ?thesis
      proof (cases err)
        case (Sqlite3Error c)
        from Cons.IH [of "Suc i" tx1 "say (LogDuplicate symbol (Time q)) (called (TxExecInsert symbol q) w)"]
        show ?thesis using False ex Some Sqlite3Error by auto
      next
        case (OtherError s)
        then show ?thesis using False ex Some by auto
      qed
    qed
  qed
qed

lemma writeToDB_prefix:
  "snd (writeToDB f quotes symbol w) = snd (writeToDB f (real_prefix quotes) symbol w)"
proof -
  have "insert_loop f symbol 0 (real_prefix quotes) tx w1 = insert_loop f symbol 0 quotes tx w1" for tx w1
    using insert_loop_prefix [of f symbol 0 quotes tx w1] by simp
  moreover have "insert_loop f symbol 0 (real_prefix (real_prefix quotes)) tx w1 = insert_loop f symbol 0 quotes tx w1" for tx w1
    using insert_loop_prefix [of f symbol 0 "real_prefix quotes" tx w1]
          insert_loop_prefix [of f symbol 0 quotes tx w1] by simp
  ultimately show ?thesis
    unfolding writeToDB_def
    by (auto split: prod.splits option.splits sum.splits list.splits simp: Let_def)
qed

lemma writeToDB_rows:
  "\<exists>added. rows_of (tables (snd (writeToDB f quotes symbol w))) symbol
              = rows_of (tables w) symbol @ added \<and>
      set added \<subseteq> set (real_prefix quotes) \<and>
      (\<forall>s. table_key s \<noteq> table_key symbol \<longrightarrow>
         rows_of (tables (snd (writeToDB f quotes symbol w))) s = rows_of (tables w) s)"
proof -
  obtain b r w1 where ct: "createTableIfNeeded f symbol w = ((b, r), w1)"
    by (metis prod.exhaust)
  note eff = createTableIfNeeded_effect [OF ct]
  have same: ?thesis if "tables (snd (writeToDB f quotes symbol w)) = tables w1"
    using that eff(1) by (intro exI [of _ "[]"]) simp
  show ?thesis
  proof (cases r)
    case (Some err)
    then have "tables (snd (writeToDB f quotes symbol w)) = tables w1"
      using ct by (simp add: writeToDB_def)
    then show ?thesis by (rule same)
  next
    case None
    show ?thesis
    proof (cases "begin_fault f")
      case (Some err)
      then have "tables (snd (writeToDB f quotes symbol w)) = tables w1"
        using ct None by (simp add: writeToDB_def)
      then show ?thesis by (rule same)
    next
      case nb: None
      obtain res w2 where lp: "insert_loop f symbol 0 quotes (tables w1) (called DbBegin w1) = (res, w2)"
        by (metis prod.exhaust)
      have t2: "tables w2 = tables w1"
        using insert_loop_tables [of f symbol 0 quotes "tables w1" "called DbBegin w1"] lp by simp
      show ?thesis
      proof (cases res)
        case (Inl err)
        then have "tables (snd (writeToDB f quotes symbol w)) = tables w1"
          using ct None nb lp t2 by (simp add: writeToDB_def)
        then show ?thesis by (rule same)
      next
        case (Inr tx')
        have w3: "tables (snd (writeToDB f quotes symbol w)) = tables (snd (tx_Commit f tx' w2))"
          using ct None nb lp Inr by (simp add: writeToDB_def Let_def split: list.splits)
        show ?thesis
        proof (cases "commit_fault f")
          case (Some err)
          then have "tables (snd (writeToDB f quotes symbol w)) = tables w1"
            using w3 t2 by (simp add: tx_Commit_def)
          then show ?thesis by (rule same)
        next
          case nc: None
          then have fin: "tables (snd (writeToDB f quotes symbol w)) = tx'"
            using w3 by (simp add: tx_Commit_def)
          show ?thesis
          proof (cases "tables w1 (table_key symbol)")
            case None
            from insert_loop_absent [where tx="tables w1" and symbol=symbol, OF None lp [unfolded Inr]] have "tx' = tables w1" .
            with fin show ?thesis by (intro same) simp
          next
            case (Some rows)
            have rows: "rows = rows_of (tables w) symbol"
              using rows_of_Some [where t="tables w1" and symbol=symbol, OF Some] eff(1) by simp
            from insert_loop_rows [OF lp [unfolded Inr] Some] obtain added where
              tx': "tx' = (tables w1)(table_key symbol \<mapsto> rows @ added)"
              and sub: "set added \<subseteq> set (real_prefix quotes)" by blast
            show ?thesis using fin tx' sub eff(1) rows by (intro exI [of _ added]) simp
          qed
        qed
      qed
    qed
  qed
qed

lemma writeToDB_no_fault:
  assumes nf: "query_fault f = None" "create_fault f = None" "begin_fault f = None"
      "\<forall>j. exec_fault f j = None" "commit_fault f = None"
    and le: "lookup_exact f symbol (tables w)"
  shows "\<exists>b w1. createTableIfNeeded f symbol w = ((b, None), w1) \<and>
    tables w1 (table_key symbol) = Some (rows_of (tables w) symbol) \<and>
    snd (writeToDB f quotes symbol w) =
      (called DbBegin w1)
        \<lparr>logs := logs w1 @ map (\<lambda>q. LogDuplicate symbol (Time q))
                 (nths (real_prefix quotes) {n. conflicts_at (rows_of (tables w) symbol) (real_prefix quotes) n}),
         calls := calls (called DbBegin w1) @ map (TxExecInsert symbol) (real_prefix quotes) @ [TxCommit],
         tables := (tables w1)(table_key symbol \<mapsto> rows_of (tables w) symbol @
                 nths (real_prefix quotes) {n. \<not> conflicts_at (rows_of (tables w) symbol) (real_prefix quotes) n})\<rparr> \<and>
    fst (writeToDB f quotes symbol w) =
      (case quotes of [] \<Rightarrow> Panics | earliest # _ \<Rightarrow> Returns (earliest, None))"
proof -
  from createTableIfNeeded_ok [OF nf(1,2) le] obtain b w1 where
    ct: "createTableIfNeeded f symbol w = ((b, None), w1)" by blast
  note tab = createTableIfNeeded_effect(2) [OF ct refl le]
  let ?P = "real_prefix quotes" and ?rows = "rows_of (tables w) symbol"
  have nd: "\<forall>q\<in>set ?P. \<not> isDummyQuote q" by (auto dest: set_takeWhileD)
  have lp: "insert_loop f symbol 0 quotes (tables w1) (called DbBegin w1) =
      (Inr ((tables w1)(table_key symbol \<mapsto> ?rows @ nths ?P {n. \<not> conflicts_at ?rows ?P n})),
       (called DbBegin w1)\<lparr>logs := logs (called DbBegin w1) @ map (\<lambda>q. LogDuplicate symbol (Time q)) (nths ?P {n. conflicts_at ?rows ?P n}),
         calls := calls (called DbBegin w1) @ map (TxExecInsert symbol) ?P\<rparr>)"
    unfolding insert_loop_prefix [of f symbol 0 quotes]
    by (rule insert_loop_no_fault [where tx="tables w1" and rows="?rows", OF nf(4) nd tab])
  have wd: "writeToDB f quotes symbol w =
      (case quotes of [] \<Rightarrow> Panics | earliest # _ \<Rightarrow> Returns (earliest, None),
       snd (tx_Commit f ((tables w1)(table_key symbol \<mapsto> ?rows @ nths ?P {n. \<not> conflicts_at ?rows ?P n}))
         ((called DbBegin w1)\<lparr>logs := logs (called DbBegin w1) @ map (\<lambda>q. LogDuplicate symbol (Time q)) (nths ?P {n. conflicts_at ?rows ?P n}),
         calls := calls (called DbBegin w1) @ map (TxExecInsert symbol) ?P\<rparr>)))"
  proof -
    have "writeToDB f quotes symbol w =
      (case insert_loop f symbol 0 quotes (tables w1) (called DbBegin w1) of
         (Inl err, w2) \<Rightarrow> (Returns (Quote_zero, Some err), w2)
       | (Inr tx, w2) \<Rightarrow>
           (let w3 = snd (tx_Commit f tx w2)
            in (case quotes of
                  [] \<Rightarrow> (Panics, w3)
                | earliest # _ \<Rightarrow> (Returns (earliest, None), w3))))"
      unfolding writeToDB_def ct using nf(3) by simp
    then show ?thesis unfolding lp by (simp add: Let_def split: list.split)
  qed
  show ?thesis
    using ct tab nf(5)
    by (intro exI [of _ b] exI [of _ w1]) (simp add: wd tx_Commit_def called_def)
qed

section \<open>The store writer\<close>

text \<open>
  C4. \<open>writeToDB\<close> works through the batch in order and stops at the first dummy
  quote: the batch and its part before the first dummy quote leave the same state;
  whatever the store does, the rows the call adds to the instrument's table come from
  that part, so none is a dummy quote; and when the store answers the lookup of the
  table exactly and raises no error, and the times of that part are new and distinct,
  the table gains exactly that part, in order.
\<close>

theorem writeToDB_stops_at_first_dummy:
  "snd (writeToDB f quotes symbol w) = snd (writeToDB f (real_prefix quotes) symbol w)
   \<and> (\<exists>added. rows_of (tables (snd (writeToDB f quotes symbol w))) symbol
                 = rows_of (tables w) symbol @ added
         \<and> set added \<subseteq> set (real_prefix quotes)
         \<and> (\<forall>q\<in>set added. \<not> isDummyQuote q))
   \<and> (lookup_exact f symbol (tables w)
        \<and> query_fault f = None \<and> create_fault f = None \<and> begin_fault f = None
        \<and> (\<forall>j. exec_fault f j = None) \<and> commit_fault f = None
        \<and> distinct (map Time (real_prefix quotes))
        \<and> Time ` set (real_prefix quotes) \<inter> Time ` set (rows_of (tables w) symbol) = {}
      \<longrightarrow> tables (snd (writeToDB f quotes symbol w)) (table_key symbol)
            = Some (rows_of (tables w) symbol @ real_prefix quotes))"
proof (intro conjI impI)
  show "snd (writeToDB f quotes symbol w) = snd (writeToDB f (real_prefix quotes) symbol w)"
    by (rule writeToDB_prefix)
next
  from writeToDB_rows [of f quotes symbol w] obtain added where
    a: "rows_of (tables (snd (writeToDB f quotes symbol w))) symbol = rows_of (tables w) symbol @ added"
    and b: "set added \<subseteq> set (real_prefix quotes)" by blast
  from b have "\<forall>q\<in>set added. \<not> isDummyQuote q" by (auto dest: set_takeWhileD)
  with a b show "\<exists>added. rows_of (tables (snd (writeToDB f quotes symbol w))) symbol
                 = rows_of (tables w) symbol @ added
         \<and> set added \<subseteq> set (real_prefix quotes)
         \<and> (\<forall>q\<in>set added. \<not> isDummyQuote q)" by blast
next
  let ?P = "real_prefix quotes" and ?rows = "rows_of (tables w) symbol"
  assume h: "lookup_exact f symbol (tables w)
        \<and> query_fault f = None \<and> create_fault f = None \<and> begin_fault f = None
        \<and> (\<forall>j. exec_fault f j = None) \<and> commit_fault f = None
        \<and> distinct (map Time ?P) \<and> Time ` set ?P \<inter> Time ` set ?rows = {}"
  then have nf: "query_fault f = None" "create_fault f = None" "begin_fault f = None"
      "\<forall>j. exec_fault f j = None" "commit_fault f = None"
    and le: "lookup_exact f symbol (tables w)"
    and d: "distinct (map Time ?P)" "Time ` set ?P \<inter> Time ` set ?rows = {}" by simp_all
  have all: "nths ?P {n. \<not> conflicts_at ?rows ?P n} = ?P"
    using no_conflicts_at [OF d] by (intro nths_all) simp
  from writeToDB_no_fault [OF nf le, of quotes] all
  show "tables (snd (writeToDB f quotes symbol w)) (table_key symbol) = Some (?rows @ ?P)"
    by auto
qed

theorem writeToDB_stops_at_first_dummy_witness:
  "lookup_exact no_faults ''BTC'' (tables empty_world)
   \<and> query_fault no_faults = None \<and> create_fault no_faults = None \<and> begin_fault no_faults = None
   \<and> (\<forall>j. exec_fault no_faults j = None) \<and> commit_fault no_faults = None
   \<and> distinct (map Time (real_prefix [quote_at 10, quote_at 9, dummy_at 8, quote_at 7]))
   \<and> Time ` set (real_prefix [quote_at 10, quote_at 9, dummy_at 8, quote_at 7])
        \<inter> Time ` set (rows_of (tables empty_world) ''BTC'') = {}
   \<and> tables (snd (writeToDB no_faults [quote_at 10, quote_at 9, dummy_at 8, quote_at 7]
                  ''BTC'' empty_world)) ''BTC''
       = Some [quote_at 10, quote_at 9]"
proof -
  have d: "isDummyQuote (dummy_at t)" "\<not> isDummyQuote (quote_at t)" for t
    by (simp_all add: isDummyQuote_def quote_at_def dummy_at_def)
  have p: "real_prefix [quote_at 10, quote_at 9, dummy_at 8, quote_at 7] = [quote_at 10, quote_at 9]"
    by (simp add: d)
  have r: "rows_of (tables empty_world) ''BTC'' = []"
    by (simp add: rows_of_def empty_world_def)
  have h: "lookup_exact no_faults ''BTC'' (tables empty_world)
   \<and> query_fault no_faults = None \<and> create_fault no_faults = None \<and> begin_fault no_faults = None
   \<and> (\<forall>j. exec_fault no_faults j = None) \<and> commit_fault no_faults = None
   \<and> distinct (map Time (real_prefix [quote_at 10, quote_at 9, dummy_at 8, quote_at 7]))
   \<and> Time ` set (real_prefix [quote_at 10, quote_at 9, dummy_at 8, quote_at 7])
        \<inter> Time ` set (rows_of (tables empty_world) ''BTC'') = {}"
    unfolding p r by (simp add: no_faults_def quote_at_def lookup_exact_def)
  from writeToDB_stops_at_first_dummy [of no_faults "[quote_at 10, quote_at 9, dummy_at 8, quote_at 7]"
      "''BTC''" empty_world] h
  have "tables (snd (writeToDB no_faults [quote_at 10, quote_at 9, dummy_at 8, quote_at 7]
                  ''BTC'' empty_world)) (table_key ''BTC'')
       = Some (rows_of (tables empty_world) ''BTC'' @ real_prefix [quote_at 10, quote_at 9, dummy_at 8, quote_at 7])"
    by blast
  then have "tables (snd (writeToDB no_faults [quote_at 10, quote_at 9, dummy_at 8, quote_at 7]
                  ''BTC'' empty_world)) ''BTC'' = Some [quote_at 10, quote_at 9]"
    unfolding p r by simp
  with h show ?thesis by blast
qed

lemmas store_defs = createTableIfNeeded_def createTable_def db_QueryRow_Scan_def
  db_Exec_create_def tx_Exec_insert_def tx_Commit_def

lemma quote_at_simps [simp]:
  "Time (quote_at t) = t" "\<not> isDummyQuote (quote_at t)"
  "Time (dummy_at t) = t" "isDummyQuote (dummy_at t)"
  by (simp_all add: isDummyQuote_def quote_at_def dummy_at_def)

lemma createTableIfNeeded_logs:
  "createTableIfNeeded f symbol w = ((b, None), w1) \<Longrightarrow> logs w1 = logs w"
  by (auto simp: store_defs split: option.splits prod.splits scan.splits if_splits)

text \<open>
  C5. When the store answers the lookup of the table exactly and raises no error, a
  write of a non-empty batch succeeds and returns the batch's first quote, whatever
  conflicts the batch has with the table: the rows that were there stay as they were, in
  front; no added row has the time of one of them; and of the batch's part before its
  first dummy quote, every conflicting record is logged as a duplicate and every other
  record is added.
\<close>

theorem writeToDB_skips_duplicates:
  assumes "lookup_exact f symbol (tables w)"
    "query_fault f = None" "create_fault f = None" "begin_fault f = None"
    "\<forall>j. exec_fault f j = None" "commit_fault f = None" "quotes \<noteq> []"
  shows "\<exists>added w'. writeToDB f quotes symbol w = (Returns (hd quotes, None), w')
     \<and> tables w' (table_key symbol) = Some (rows_of (tables w) symbol @ added)
     \<and> set added \<subseteq> set (real_prefix quotes)
     \<and> Time ` set added \<inter> Time ` set (rows_of (tables w) symbol) = {}
     \<and> (\<forall>n < length (real_prefix quotes).
           if conflicts_at (rows_of (tables w) symbol) (real_prefix quotes) n
           then LogDuplicate symbol (Time (real_prefix quotes ! n))
                  \<in> set (drop (length (logs w)) (logs w'))
           else real_prefix quotes ! n \<in> set added)"
proof -
  let ?P = "real_prefix quotes" and ?rows = "rows_of (tables w) symbol"
  let ?added = "nths ?P {n. \<not> conflicts_at ?rows ?P n}"
  let ?dups = "nths ?P {n. conflicts_at ?rows ?P n}"
  let ?w' = "snd (writeToDB f quotes symbol w)"
  from writeToDB_no_fault [OF assms(2-6) assms(1), of quotes] obtain b w1 where
    ct: "createTableIfNeeded f symbol w = ((b, None), w1)"
    and w': "?w' = (called DbBegin w1)
        \<lparr>logs := logs w1 @ map (\<lambda>q. LogDuplicate symbol (Time q)) ?dups,
         calls := calls (called DbBegin w1) @ map (TxExecInsert symbol) ?P @ [TxCommit],
         tables := (tables w1)(table_key symbol \<mapsto> ?rows @ ?added)\<rparr>"
    and res: "fst (writeToDB f quotes symbol w) =
      (case quotes of [] \<Rightarrow> Panics | earliest # _ \<Rightarrow> Returns (earliest, None))"
    by blast
  have 1: "writeToDB f quotes symbol w = (Returns (hd quotes, None), ?w')"
    using res assms(7) by (cases quotes) (simp_all add: prod_eq_iff)
  have 2: "tables ?w' (table_key symbol) = Some (?rows @ ?added)" unfolding w' by simp
  have 3: "set ?added \<subseteq> set ?P" by (rule set_nths_subset)
  have 4: "Time ` set ?added \<inter> Time ` set ?rows = {}"
    by (auto simp: set_nths conflicts_at_def)
  have lg: "drop (length (logs w)) (logs ?w') = map (\<lambda>q. LogDuplicate symbol (Time q)) ?dups"
    unfolding w' using createTableIfNeeded_logs [OF ct] by simp
  have 5: "\<forall>n < length ?P. if conflicts_at ?rows ?P n
           then LogDuplicate symbol (Time (?P ! n)) \<in> set (drop (length (logs w)) (logs ?w'))
           else ?P ! n \<in> set ?added"
    unfolding lg by (auto simp: set_nths)
  from 1 2 3 4 5 show ?thesis by blast
qed

theorem writeToDB_skips_duplicates_witness:
  "lookup_exact no_faults ''BTC'' (tables btc_world)
   \<and> query_fault no_faults = None \<and> create_fault no_faults = None \<and> begin_fault no_faults = None
   \<and> (\<forall>j. exec_fault no_faults j = None) \<and> commit_fault no_faults = None
   \<and> [quote_at 10, quote_at 9] \<noteq> []
   \<and> fst (writeToDB no_faults [quote_at 10, quote_at 9] ''BTC'' btc_world)
        = Returns (quote_at 10, None)
   \<and> tables (snd (writeToDB no_faults [quote_at 10, quote_at 9] ''BTC'' btc_world)) ''BTC''
        = Some [stale_row, quote_at 9]
   \<and> logs (snd (writeToDB no_faults [quote_at 10, quote_at 9] ''BTC'' btc_world))
        = [LogDuplicate ''BTC'' 10]"
proof -
  have h: "lookup_exact no_faults ''BTC'' (tables btc_world)"
    "query_fault no_faults = None" "create_fault no_faults = None"
    "begin_fault no_faults = None" "\<forall>j. exec_fault no_faults j = None"
    "commit_fault no_faults = None" "[quote_at 10, quote_at 9] \<noteq> []"
    by (simp_all add: no_faults_def lookup_exact_def)
  from writeToDB_skips_duplicates [OF h]
  have r: "fst (writeToDB no_faults [quote_at 10, quote_at 9] ''BTC'' btc_world)
        = Returns (quote_at 10, None)" by auto
  have t: "tables (snd (writeToDB no_faults [quote_at 10, quote_at 9] ''BTC'' btc_world)) ''BTC''
        = Some [stale_row, quote_at 9]"
    by (simp add: writeToDB_def store_defs no_faults_def btc_world_def stale_row_def
          say_def called_def)
  have l: "logs (snd (writeToDB no_faults [quote_at 10, quote_at 9] ''BTC'' btc_world))
        = [LogDuplicate ''BTC'' 10]"
    by (simp add: writeToDB_def store_defs no_faults_def btc_world_def stale_row_def
          say_def called_def)
  from h r t l show ?thesis by blast
qed

text \<open>
  C5 as first stated asks that every non-conflicting record of the batch be written. A
  record after the batch's first dummy quote is not: with time 10 in the table, the
  batch of the quote at 10, a dummy quote and the quote at 7 is written with success,
  the quote at 7 is real and its time is new, and the table is left with the one row it
  had.
\<close>

theorem record_after_dummy_not_written:
  "fst (writeToDB no_faults [quote_at 10, dummy_at 8, quote_at 7] ''BTC'' btc_world)
     = Returns (quote_at 10, None)
   \<and> \<not> isDummyQuote (quote_at 7)
   \<and> Time (quote_at 7) \<notin> Time ` set (rows_of (tables btc_world) ''BTC'')
   \<and> tables (snd (writeToDB no_faults [quote_at 10, dummy_at 8, quote_at 7] ''BTC'' btc_world))
        ''BTC'' = Some [stale_row]"
  by (simp add: writeToDB_def store_defs no_faults_def btc_world_def stale_row_def
        say_def called_def rows_of_def)

lemma insert_loop_fault:
  "n < length (real_prefix quotes) \<Longrightarrow> exec_fault f (i + n) = Some err \<Longrightarrow>
   err \<noteq> Sqlite3Error 2067 \<Longrightarrow> \<forall>j<n. exec_fault f (i + j) = None \<Longrightarrow>
   tx (table_key symbol) = Some rows \<Longrightarrow>
   fst (insert_loop f symbol i quotes tx w) = Inl err"
proof (induction quotes arbitrary: i n tx w rows)
  case Nil
  then show ?case by simp
next
  case (Cons q qs)
  have nd: "\<not> isDummyQuote q" using Cons.prems(1) by (auto split: if_splits)
  show ?case
  proof (cases n)
    case 0
    then have "tx_Exec_insert f i symbol q tx = (Some err, tx)"
      using Cons.prems(2) by (simp add: tx_Exec_insert_def)
    then show ?thesis using nd Cons.prems(3)
      by (cases err) (simp_all add: insert_loop_step del: insert_loop.simps)
  next
    case (Suc m)
    have m: "m < length (real_prefix qs)" using Cons.prems(1) nd Suc by simp
    have f0: "exec_fault f i = None" using Cons.prems(4) [rule_format, of 0] Suc by simp
    have fm: "exec_fault f (Suc i + m) = Some err" using Cons.prems(2) Suc by simp
    have fj: "\<forall>j<m. exec_fault f (Suc i + j) = None"
      using Cons.prems(4) Suc by (auto dest: spec [of _ "Suc _"])
    obtain r tx1 where ex: "tx_Exec_insert f i symbol q tx = (r, tx1)"
      by (cases "tx_Exec_insert f i symbol q tx")
    from tx_Exec_insert_cases [where tx=tx and symbol=symbol and rows=rows, OF Cons.prems(5) ex]
    consider (skip) "r \<noteq> None" "tx1 = tx"
      | (ins) "r = None" "tx1 = tx(table_key symbol \<mapsto> rows @ [q])" by blast
    then show ?thesis
    proof cases
      case skip
      then have r: "r = Some (Sqlite3Error 2067)"
        using ex f0 Cons.prems(5) by (auto simp: tx_Exec_insert_def split: if_splits)
      have "fst (insert_loop f symbol (Suc i) qs tx w1) = Inl err" for w1
        by (rule Cons.IH [where rows=rows and tx=tx and n=m and i="Suc i", OF m fm Cons.prems(3) fj Cons.prems(5)])
      then show ?thesis using nd ex r skip
        by (simp add: insert_loop_step del: insert_loop.simps)
    next
      case ins
      have "tx1 (table_key symbol) = Some (rows @ [q])" using ins by simp
      then have "fst (insert_loop f symbol (Suc i) qs tx1 w1) = Inl err" for w1
        by (rule Cons.IH [where rows="rows @ [q]" and tx=tx1 and n=m and i="Suc i", OF m fm Cons.prems(3) fj])
      then show ?thesis using nd ex ins
        by (simp add: insert_loop_step del: insert_loop.simps)
    qed
  qed
qed

lemma new_calls_append [simp]: "calls w' = calls w @ cs \<Longrightarrow> new_calls w w' = cs"
  by (simp add: new_calls_def)

lemma writeToDB_unfold:
  "writeToDB f quotes symbol w =
     (let ((b, r), w1) = createTableIfNeeded f symbol w in
      case r of
        Some err \<Rightarrow> (Returns (Quote_zero, Some err), say (LogTableCreationFailed symbol) w1)
      | None \<Rightarrow>
          (case begin_fault f of
             Some err \<Rightarrow> (Returns (Quote_zero, Some err), called DbBegin w1)
           | None \<Rightarrow>
               (let (res, w2) = insert_loop f symbol 0 quotes (tables w1) (called DbBegin w1) in
                case res of
                  Inl err \<Rightarrow> (Returns (Quote_zero, Some err), w2)
                | Inr tx \<Rightarrow>
                    (case quotes of
                       [] \<Rightarrow> (Panics, snd (tx_Commit f tx w2))
                     | earliest # _ \<Rightarrow> (Returns (earliest, None), snd (tx_Commit f tx w2))))))"
  by (simp add: writeToDB_def Let_def split: prod.splits option.splits sum.splits list.splits)

lemma writeToDB_error_effect:
  assumes "writeToDB f quotes symbol w = (Returns (q, Some err), w')"
  shows "q = Quote_zero" and "\<forall>s. rows_of (tables w') s = rows_of (tables w) s"
    and "TxCommit \<notin> set (new_calls w w')"
proof -
  obtain b r w1 where ct: "createTableIfNeeded f symbol w = ((b, r), w1)"
    by (metis prod.exhaust)
  note eff = createTableIfNeeded_effect [OF ct]
  from eff(3) obtain cs where cs: "calls w1 = calls w @ cs"
    "set cs \<subseteq> {QueryRow symbol, ExecCreateTable symbol}" by blast
  obtain res w2 where lp: "insert_loop f symbol 0 quotes (tables w1) (called DbBegin w1) = (res, w2)"
    by (metis prod.exhaust)
  have t2: "tables w2 = tables w1"
    using insert_loop_tables [of f symbol 0 quotes "tables w1" "called DbBegin w1"] lp by simp
  from insert_loop_calls_exact [of f symbol 0 quotes "tables w1" "called DbBegin w1"] lp
  obtain ds where ds: "calls w2 = calls w @ cs @ DbBegin # ds" "set ds \<subseteq> range (TxExecInsert symbol)"
    using cs by auto
  have "q = Quote_zero \<and> (tables w' = tables w1) \<and>
      (calls w' = calls w @ cs \<or> calls w' = calls w @ cs @ [DbBegin] \<or> calls w' = calls w @ cs @ DbBegin # ds)"
    using assms ct lp t2 cs(1) ds(1) unfolding writeToDB_unfold
    by (auto simp: Let_def split: option.splits sum.splits list.splits)
  then have q: "q = Quote_zero" and t: "tables w' = tables w1"
    and c: "new_calls w w' = cs \<or> new_calls w w' = cs @ [DbBegin] \<or> new_calls w w' = cs @ DbBegin # ds"
    by (auto simp: new_calls_def)
  show "q = Quote_zero" by (rule q)
  show "\<forall>s. rows_of (tables w') s = rows_of (tables w) s" using t eff(1) by simp
  show "TxCommit \<notin> set (new_calls w w')" using c cs(2) ds(2) by auto
qed

lemma getHistoricalFor_write_error:
  assumes "http_Get e symbol k t = HttpBody data derr" "data \<noteq> []" "\<not> isDummyQuote (last data)"
    "writeToDB (db_faults e symbol k) data symbol (called (HttpGet symbol t) w) = (Returns (q, Some err), w')"
  shows "getHistoricalFor e (Suc fuel) k symbol t w = (Failed err, w')"
  using assms by (simp add: get_def)

text \<open>
  The errors a write meets before its commit. A write that returns an error returns it
  with the zero quote and has committed nothing (no table has other rows than before,
  and the call made no commit). An insert that fails with an error other than extended
  code 2067 makes the write return that error, as does a failure of the table's lookup
  or creation or of \<open>db.Begin\<close>. A driver whose write returns an error ends \<open>Failed\<close>
  with it.
\<close>

theorem writeToDB_other_error_aborts:
  "(writeToDB f quotes symbol w = (Returns (q, Some err), w')
      \<longrightarrow> q = Quote_zero \<and> (\<forall>s. rows_of (tables w') s = rows_of (tables w) s)
          \<and> TxCommit \<notin> set (new_calls w w'))
   \<and> (lookup_exact f symbol (tables w)
        \<and> query_fault f = None \<and> create_fault f = None \<and> begin_fault f = None
        \<and> n < length (real_prefix quotes) \<and> exec_fault f n = Some err
        \<and> err \<noteq> Sqlite3Error 2067 \<and> (\<forall>j<n. exec_fault f j = None)
      \<longrightarrow> fst (writeToDB f quotes symbol w) = Returns (Quote_zero, Some err))
   \<and> (query_fault f = Some err
        \<or> (query_fault f = None \<and> \<not> lookup f symbol (tables w) \<and> create_fault f = Some err)
        \<or> (query_fault f = None
            \<and> (lookup f symbol (tables w)
                \<or> (create_fault f = None \<and> tables w (table_key symbol) = None))
            \<and> begin_fault f = Some err)
      \<longrightarrow> fst (writeToDB f quotes symbol w) = Returns (Quote_zero, Some err))
   \<and> (http_Get e symbol k t = HttpBody data derr \<and> data \<noteq> [] \<and> \<not> isDummyQuote (last data)
        \<and> writeToDB (db_faults e symbol k) data symbol (called (HttpGet symbol t) w0)
            = (Returns (q, Some err), w')
      \<longrightarrow> getHistoricalFor e (Suc fuel) k symbol t w0 = (Failed err, w'))"
proof -
  have A: "q = Quote_zero \<and> (\<forall>s. rows_of (tables w') s = rows_of (tables w) s)
          \<and> TxCommit \<notin> set (new_calls w w')"
    if a: "writeToDB f quotes symbol w = (Returns (q, Some err), w')"
    using writeToDB_error_effect [OF a] by blast
  have B: "fst (writeToDB f quotes symbol w) = Returns (Quote_zero, Some err)"
    if h: "lookup_exact f symbol (tables w)
        \<and> query_fault f = None \<and> create_fault f = None \<and> begin_fault f = None
        \<and> n < length (real_prefix quotes) \<and> exec_fault f n = Some err
        \<and> err \<noteq> Sqlite3Error 2067 \<and> (\<forall>j<n. exec_fault f j = None)"
  proof -
    from h have nf: "query_fault f = None" "create_fault f = None"
      and le: "lookup_exact f symbol (tables w)" and nb: "begin_fault f = None"
      and n: "n < length (real_prefix quotes)" and fl: "exec_fault f (0 + n) = Some err"
      and ne: "err \<noteq> Sqlite3Error 2067" and before: "\<forall>j<n. exec_fault f (0 + j) = None"
      by simp_all
    from createTableIfNeeded_ok [OF nf le] obtain b w1 where
      ct: "createTableIfNeeded f symbol w = ((b, None), w1)" by blast
    note tab = createTableIfNeeded_effect(2) [OF ct refl le]
    have "fst (insert_loop f symbol 0 quotes (tables w1) (called DbBegin w1)) = Inl err"
      by (rule insert_loop_fault [where tx="tables w1" and rows="rows_of (tables w) symbol",
            OF n fl ne before tab])
    then show ?thesis
      unfolding writeToDB_unfold ct using nb
      by (cases "insert_loop f symbol 0 quotes (tables w1) (called DbBegin w1)") simp
  qed
  have S: "fst (writeToDB f quotes symbol w) = Returns (Quote_zero, Some err)"
    if "query_fault f = Some err
        \<or> (query_fault f = None \<and> \<not> lookup f symbol (tables w) \<and> create_fault f = Some err)
        \<or> (query_fault f = None
            \<and> (lookup f symbol (tables w)
                \<or> (create_fault f = None \<and> tables w (table_key symbol) = None))
            \<and> begin_fault f = Some err)"
    using that
    by (auto simp: writeToDB_def store_defs split: option.splits prod.splits scan.splits)
  have C: "getHistoricalFor e (Suc fuel) k symbol t w0 = (Failed err, w')"
    if "http_Get e symbol k t = HttpBody data derr \<and> data \<noteq> [] \<and> \<not> isDummyQuote (last data)
        \<and> writeToDB (db_faults e symbol k) data symbol (called (HttpGet symbol t) w0)
            = (Returns (q, Some err), w')"
    using that getHistoricalFor_write_error by blast
  from A B S C show ?thesis by blast
qed

theorem writeToDB_other_error_aborts_witness:
  "writeToDB (fault_at 1 (OtherError ''disk I/O error'')) [quote_at 10, quote_at 9] ''BTC''
       (called (HttpGet ''BTC'' 1000) empty_world)
     = (Returns (Quote_zero, Some (OtherError ''disk I/O error'')),
        \<lparr>tables = [''BTC'' \<mapsto> []], logs = [],
         calls = [HttpGet ''BTC'' 1000, QueryRow ''BTC'', ExecCreateTable ''BTC'', DbBegin,
                  TxExecInsert ''BTC'' (quote_at 10), TxExecInsert ''BTC'' (quote_at 9)]\<rparr>)
   \<and> lookup_exact (fault_at 1 (OtherError ''disk I/O error'')) ''BTC''
        (tables (called (HttpGet ''BTC'' 1000) empty_world))
   \<and> query_fault (fault_at 1 (OtherError ''disk I/O error'')) = None
   \<and> create_fault (fault_at 1 (OtherError ''disk I/O error'')) = None
   \<and> begin_fault (fault_at 1 (OtherError ''disk I/O error'')) = None
   \<and> 1 < length (real_prefix [quote_at 10, quote_at 9])
   \<and> exec_fault (fault_at 1 (OtherError ''disk I/O error'')) 1 = Some (OtherError ''disk I/O error'')
   \<and> OtherError ''disk I/O error'' \<noteq> Sqlite3Error 2067
   \<and> exec_fault (fault_at 1 (OtherError ''disk I/O error'')) 0 = None
   \<and> query_fault (no_faults\<lparr>begin_fault := Some (OtherError ''database is locked'')\<rparr>) = None
   \<and> create_fault (no_faults\<lparr>begin_fault := Some (OtherError ''database is locked'')\<rparr>) = None
   \<and> tables empty_world (table_key ''BTC'') = None
   \<and> begin_fault (no_faults\<lparr>begin_fault := Some (OtherError ''database is locked'')\<rparr>)
       = Some (OtherError ''database is locked'')
   \<and> fst (writeToDB (no_faults\<lparr>begin_fault := Some (OtherError ''database is locked'')\<rparr>)
            [quote_at 10, quote_at 9] ''BTC'' empty_world)
       = Returns (Quote_zero, Some (OtherError ''database is locked''))
   \<and> [quote_at 10, quote_at 9] \<noteq> [] \<and> \<not> isDummyQuote (last [quote_at 10, quote_at 9])
   \<and> getHistoricalFor
        (env_of (\<lambda>s k. HttpBody [quote_at 10, quote_at 9] None)
                (\<lambda>s k. fault_at 1 (OtherError ''disk I/O error'')))
        (Suc 0) 0 ''BTC'' 1000 empty_world
     = (Failed (OtherError ''disk I/O error''),
        \<lparr>tables = [''BTC'' \<mapsto> []], logs = [],
         calls = [HttpGet ''BTC'' 1000, QueryRow ''BTC'', ExecCreateTable ''BTC'', DbBegin,
                  TxExecInsert ''BTC'' (quote_at 10), TxExecInsert ''BTC'' (quote_at 9)]\<rparr>)"
proof -
  let ?E = "OtherError ''disk I/O error''" and ?D = "[quote_at 10, quote_at 9]"
  let ?f = "fault_at 1 ?E"
  let ?env = "env_of (\<lambda>s k. HttpBody ?D None) (\<lambda>s k. ?f)"
  let ?W = "\<lparr>tables = [''BTC'' \<mapsto> []], logs = [],
         calls = [HttpGet ''BTC'' 1000, QueryRow ''BTC'', ExecCreateTable ''BTC'', DbBegin,
                  TxExecInsert ''BTC'' (quote_at 10), TxExecInsert ''BTC'' (quote_at 9)]\<rparr>"
  have nd: "\<not> isDummyQuote (quote_at t)" for t
    by (simp add: isDummyQuote_def quote_at_def)
  have run: "writeToDB ?f ?D ''BTC'' (called (HttpGet ''BTC'' 1000) empty_world)
     = (Returns (Quote_zero, Some ?E), ?W)"
    by (simp add: writeToDB_def store_defs fault_at_def no_faults_def empty_world_def
          say_def called_def)
  have h2: "lookup_exact ?f ''BTC'' (tables (called (HttpGet ''BTC'' 1000) empty_world))
        \<and> query_fault ?f = None \<and> create_fault ?f = None \<and> begin_fault ?f = None
        \<and> 1 < length (real_prefix ?D) \<and> exec_fault ?f 1 = Some ?E
        \<and> ?E \<noteq> Sqlite3Error 2067 \<and> (\<forall>j<1. exec_fault ?f j = None)"
    by (simp add: fault_at_def no_faults_def nd lookup_exact_def)
  have h3: "http_Get ?env ''BTC'' 0 1000 = HttpBody ?D None \<and> ?D \<noteq> [] \<and> \<not> isDummyQuote (last ?D)
        \<and> writeToDB (db_faults ?env ''BTC'' 0) ?D ''BTC'' (called (HttpGet ''BTC'' 1000) empty_world)
            = (Returns (Quote_zero, Some ?E), ?W)"
    using run by (simp add: env_of_def nd)
  from writeToDB_other_error_aborts [where f="?f" and quotes="?D" and symbol="''BTC''"
      and w="called (HttpGet ''BTC'' 1000) empty_world" and q=Quote_zero and err="?E" and w'="?W"
      and n=1 and e="?env" and k=0 and t=1000 and data="?D" and derr=None and ?w0.0=empty_world
      and fuel=0] h3
  have drv: "getHistoricalFor ?env (Suc 0) 0 ''BTC'' 1000 empty_world = (Failed ?E, ?W)" by blast
  let ?L = "OtherError ''database is locked''"
  let ?g = "no_faults\<lparr>begin_fault := Some ?L\<rparr>"
  have h4: "query_fault ?g = None" "create_fault ?g = None"
    "tables empty_world (table_key ''BTC'') = None" "begin_fault ?g = Some ?L"
    by (simp_all add: no_faults_def empty_world_def)
  from writeToDB_other_error_aborts [where f="?g" and quotes="?D" and symbol="''BTC''"
      and w=empty_world and err="?L"] h4
  have bg: "fst (writeToDB ?g ?D ''BTC'' empty_world) = Returns (Quote_zero, Some ?L)" by blast
  from run h2 h3 h4 bg drv show ?thesis by simp
qed

text \<open>
  C7. The error of the final commit is a persistence error of the write too, and the
  write does not return it, while it returns the errors of \<open>db.Begin\<close> and of the
  inserts. Here every commit fails: the write returns the first quote and no error
  after it has called the commit, and the driver goes on to the next page and ends
  \<open>Done\<close>, with no row in the table.
\<close>

theorem commit_error_not_returned:
  "commit_fault (db_faults commit_fails ''BTC'' 0) = Some (OtherError ''database is locked'')
   \<and> fst (writeToDB (db_faults commit_fails ''BTC'' 0) [quote_at 10] ''BTC''
            (called (HttpGet ''BTC'' 1000) empty_world))
       = Returns (quote_at 10, None)
   \<and> TxCommit \<in> set (calls (snd (writeToDB (db_faults commit_fails ''BTC'' 0) [quote_at 10] ''BTC''
            (called (HttpGet ''BTC'' 1000) empty_world))))
   \<and> fst (getHistoricalFor commit_fails (Suc (Suc 0)) 0 ''BTC'' 1000 empty_world) = Done ''BTC''
   \<and> rows_of (tables (snd (getHistoricalFor commit_fails (Suc (Suc 0)) 0 ''BTC'' 1000 empty_world)))
        ''BTC'' = []"
  by (simp add: get_def writeToDB_def store_defs commit_fails_def env_of_def no_faults_def
        empty_world_def say_def called_def rows_of_def)

lemma store_commit_fault [simp]:
  "tx_Exec_insert (f\<lparr>commit_fault := x\<rparr>) i symbol q tx = tx_Exec_insert f i symbol q tx"
  "db_QueryRow_Scan (f\<lparr>commit_fault := x\<rparr>) symbol w = db_QueryRow_Scan f symbol w"
  "db_Exec_create (f\<lparr>commit_fault := x\<rparr>) symbol w = db_Exec_create f symbol w"
  by (simp_all add: tx_Exec_insert_def db_QueryRow_Scan_def db_Exec_create_def)

lemma insert_loop_commit_fault [simp]:
  "insert_loop (f\<lparr>commit_fault := x\<rparr>) symbol i quotes tx w = insert_loop f symbol i quotes tx w"
  by (induction quotes arbitrary: i tx w)
     (auto split: prod.splits option.splits error.splits)

lemma createTableIfNeeded_commit_fault [simp]:
  "createTableIfNeeded (f\<lparr>commit_fault := x\<rparr>) symbol w = createTableIfNeeded f symbol w"
proof -
  have "createTable (f\<lparr>commit_fault := x\<rparr>) symbol w1 = createTable f symbol w1" for w1
    by (simp add: createTable_def)
  then show ?thesis by (simp add: createTableIfNeeded_def split: prod.split scan.split)
qed

lemma fst_writeToDB_commit_fault:
  "fst (writeToDB (f\<lparr>commit_fault := x\<rparr>) quotes symbol w) = fst (writeToDB f quotes symbol w)"
  unfolding writeToDB_unfold
  by (simp add: Let_def split: prod.splits option.splits sum.splits list.splits)

lemma writeToDB_success_first:
  "fst (writeToDB f quotes symbol w) = Returns (q, None) \<Longrightarrow> quotes \<noteq> [] \<and> q = hd quotes"
  unfolding writeToDB_unfold
  by (auto simp: Let_def split: prod.splits option.splits sum.splits list.splits)

lemma writeToDB_commit_fault_rows:
  assumes "commit_fault f = Some err"
  shows "rows_of (tables (snd (writeToDB f quotes symbol w))) s = rows_of (tables w) s"
proof -
  obtain b r w1 where ct: "createTableIfNeeded f symbol w = ((b, r), w1)"
    by (metis prod.exhaust)
  obtain res w2 where lp: "insert_loop f symbol 0 quotes (tables w1) (called DbBegin w1) = (res, w2)"
    by (metis prod.exhaust)
  have t2: "tables w2 = tables w1"
    using insert_loop_tables [of f symbol 0 quotes "tables w1" "called DbBegin w1"] lp by simp
  have "tables (snd (writeToDB f quotes symbol w)) = tables w1"
    unfolding writeToDB_unfold using ct lp t2 assms
    by (simp add: tx_Commit_def split: option.splits sum.splits list.splits)
  then show ?thesis using createTableIfNeeded_effect(1) [OF ct] by simp
qed

text \<open>
  C10. The result of \<open>tx.Commit()\<close> is dropped: a write that succeeds when the commit
  succeeds returns the same first quote and \<open>nil\<close> error when the commit fails, and
  then no table has other rows than before.
\<close>

theorem writeToDB_ignores_commit_error:
  assumes "fst (writeToDB (f\<lparr>commit_fault := None\<rparr>) quotes symbol w) = Returns (q, None)"
  shows "fst (writeToDB (f\<lparr>commit_fault := Some err\<rparr>) quotes symbol w) = Returns (q, None)
     \<and> quotes \<noteq> [] \<and> q = hd quotes
     \<and> (\<forall>s. rows_of (tables (snd (writeToDB (f\<lparr>commit_fault := Some err\<rparr>) quotes symbol w))) s
             = rows_of (tables w) s)"
proof -
  have 1: "fst (writeToDB (f\<lparr>commit_fault := Some err\<rparr>) quotes symbol w) = Returns (q, None)"
    using assms by (simp add: fst_writeToDB_commit_fault)
  note 2 = writeToDB_success_first [OF 1]
  have 3: "rows_of (tables (snd (writeToDB (f\<lparr>commit_fault := Some err\<rparr>) quotes symbol w))) s
             = rows_of (tables w) s" for s
    by (rule writeToDB_commit_fault_rows) simp
  from 1 2 3 show ?thesis by simp
qed

theorem writeToDB_ignores_commit_error_witness:
  "fst (writeToDB (no_faults\<lparr>commit_fault := None\<rparr>) [quote_at 10] ''BTC'' empty_world)
     = Returns (quote_at 10, None)
   \<and> fst (writeToDB (no_faults\<lparr>commit_fault := Some (OtherError ''database is locked'')\<rparr>)
            [quote_at 10] ''BTC'' empty_world)
     = Returns (quote_at 10, None)
   \<and> tables (snd (writeToDB (no_faults\<lparr>commit_fault := Some (OtherError ''database is locked'')\<rparr>)
            [quote_at 10] ''BTC'' empty_world)) ''BTC'' = Some []
   \<and> tables (snd (writeToDB (no_faults\<lparr>commit_fault := None\<rparr>)
            [quote_at 10] ''BTC'' empty_world)) ''BTC'' = Some [quote_at 10]"
proof -
  have h: "fst (writeToDB (no_faults\<lparr>commit_fault := None\<rparr>) [quote_at 10] ''BTC'' empty_world)
     = Returns (quote_at 10, None)"
    by (simp add: writeToDB_def store_defs no_faults_def empty_world_def say_def called_def)
  from writeToDB_ignores_commit_error [OF h, of "OtherError ''database is locked''"]
  have r: "fst (writeToDB (no_faults\<lparr>commit_fault := Some (OtherError ''database is locked'')\<rparr>)
            [quote_at 10] ''BTC'' empty_world) = Returns (quote_at 10, None)" by simp
  have t: "tables (snd (writeToDB (no_faults\<lparr>commit_fault := Some (OtherError ''database is locked'')\<rparr>)
            [quote_at 10] ''BTC'' empty_world)) ''BTC'' = Some []"
    by (simp add: writeToDB_def store_defs no_faults_def empty_world_def say_def called_def)
  have t': "tables (snd (writeToDB (no_faults\<lparr>commit_fault := None\<rparr>)
            [quote_at 10] ''BTC'' empty_world)) ''BTC'' = Some [quote_at 10]"
    by (simp add: writeToDB_def store_defs no_faults_def empty_world_def say_def called_def)
  from h r t t' show ?thesis by simp
qed

section \<open>The cursor\<close>

lemma sint_min_int64: "sint min_int64 = - (2 ^ 63)"
  by (simp add: min_int64_def)

lemma sint_pred:
  assumes "x \<noteq> min_int64"
  shows "sint (x - 1 :: int64) = sint x - 1"
proof -
  have "sint x \<noteq> sint min_int64" using assms by (auto dest: signed_word_eqI)
  moreover have "- (2 ^ 63) \<le> sint x" using sint_ge [of x] by simp
  moreover have "sint x < 2 ^ 63" using sint_lt [of x] by simp
  ultimately have "- (2 ^ 63) \<le> sint x - 1" "sint x - 1 < 2 ^ 63"
    by (simp_all add: sint_min_int64)
  then have "signed_take_bit 63 (sint x - 1) = sint x - 1"
    by (intro signed_take_bit_int_eq_self) simp_all
  then show ?thesis by (simp add: sint_word_ariths)
qed

lemma min_wraps: "min_int64 - 1 = (0x7FFFFFFFFFFFFFFF :: int64)" "sint (0x7FFFFFFFFFFFFFFF :: int64) = 2^63 - 1"
  "sint (5::int64) = 5"
  by (simp_all add: min_int64_def)

lemma fetch_times_append [simp]: "fetch_times (cs @ ds) = fetch_times cs @ fetch_times ds"
  by (induction cs rule: fetch_times.induct) simp_all

lemma fetch_times_none: "\<forall>s t. HttpGet s t \<notin> set cs \<Longrightarrow> fetch_times cs = []"
  by (induction cs rule: fetch_times.induct) auto

lemma writeToDB_calls:
  "\<exists>cs. calls (snd (writeToDB f quotes symbol w)) = calls w @ cs \<and> (\<forall>s t. HttpGet s t \<notin> set cs)"
proof -
  obtain b r w1 where ct: "createTableIfNeeded f symbol w = ((b, r), w1)"
    by (metis prod.exhaust)
  from createTableIfNeeded_effect(3) [OF ct] obtain cs where cs: "calls w1 = calls w @ cs"
    "set cs \<subseteq> {QueryRow symbol, ExecCreateTable symbol}" by blast
  obtain res w2 where lp: "insert_loop f symbol 0 quotes (tables w1) (called DbBegin w1) = (res, w2)"
    by (metis prod.exhaust)
  from insert_loop_calls_exact [of f symbol 0 quotes "tables w1" "called DbBegin w1"] lp
  obtain ds where ds: "calls w2 = calls w @ cs @ DbBegin # ds" "set ds \<subseteq> range (TxExecInsert symbol)"
    using cs by auto
  have "calls (snd (writeToDB f quotes symbol w)) = calls w @ cs
      \<or> calls (snd (writeToDB f quotes symbol w)) = calls w @ cs @ [DbBegin]
      \<or> calls (snd (writeToDB f quotes symbol w)) = calls w @ cs @ DbBegin # ds
      \<or> calls (snd (writeToDB f quotes symbol w)) = calls w @ cs @ DbBegin # ds @ [TxCommit]"
    unfolding writeToDB_unfold using ct lp cs(1) ds(1)
    by (auto simp: Let_def tx_Commit_def split: option.splits sum.splits list.splits)
  moreover have "\<forall>s t. HttpGet s t \<notin> set cs" "\<forall>s t. HttpGet s t \<notin> set ds"
    using cs(2) ds(2) by auto
  ultimately show ?thesis by auto
qed

lemma writeToDB_fetch_times:
  "fetch_times (calls (snd (writeToDB f quotes symbol w))) = fetch_times (calls w)"
  using writeToDB_calls [of f quotes symbol w] by (auto simp: fetch_times_none)

lemma getHistoricalFor_fetches:
  assumes H: "\<forall>k t data derr. http_Get e symbol k t = HttpBody data derr \<longrightarrow>
      (\<forall>q\<in>set data. sint (Time q) \<le> sint t) \<and> (data \<noteq> [] \<longrightarrow> Time (hd data) \<noteq> min_int64)"
  shows "\<exists>ts. fetch_times (calls (snd (getHistoricalFor e n k symbol t w))) = fetch_times (calls w) @ ts
     \<and> sorted_wrt (\<lambda>a b. sint b < sint a) ts \<and> (\<forall>x\<in>set ts. sint x \<le> sint t)"
proof (induction n arbitrary: k t w)
  case 0
  show ?case by simp
next
  case (Suc n)
  let ?w1 = "called (HttpGet symbol t) w"
  have one: "\<exists>ts. fetch_times (calls w') = fetch_times (calls w) @ ts
     \<and> sorted_wrt (\<lambda>a b. sint b < sint a) ts \<and> (\<forall>x\<in>set ts. sint x \<le> sint t)"
    if "fetch_times (calls w') = fetch_times (calls ?w1)" for w'
    using that by (intro exI [of _ "[t]"]) simp
  show ?case
  proof (cases "http_Get e symbol k t")
    case (HttpError err)
    then have "snd (getHistoricalFor e (Suc n) k symbol t w) = say (LogFatal err) ?w1"
      by (simp add: get_def)
    then show ?thesis by (intro one) simp
  next
    case (HttpBody data derr)
    then have g: "get e k symbol t w = (Returns data, ?w1)" by (simp add: get_def)
    let ?wr = "writeToDB (db_faults e symbol k) data symbol ?w1"
    have ft: "fetch_times (calls (snd ?wr)) = fetch_times (calls ?w1)"
      by (rule writeToDB_fetch_times)
    consider (stop) "data = [] \<or> isDummyQuote (last data)"
      | (fail) "data \<noteq> []" "\<not> isDummyQuote (last data)" "\<forall>q. fst ?wr \<noteq> Returns (q, None)"
      | (go) q where "data \<noteq> []" "\<not> isDummyQuote (last data)" "fst ?wr = Returns (q, None)"
      by blast
    then show ?thesis
    proof cases
      case stop
      then have "snd (getHistoricalFor e (Suc n) k symbol t w) = ?w1" using g by auto
      then show ?thesis by (intro one) simp
    next
      case fail
      then have "snd (getHistoricalFor e (Suc n) k symbol t w) = snd ?wr"
        using g by (cases ?wr) (auto split: result.splits option.splits)
      then show ?thesis using ft by (intro one) simp
    next
      case go
      from writeToDB_success_first [OF go(3)] have q: "q = hd data" by simp
      let ?t' = "Time (hd data) - 1"
      let ?w2 = "called Sleep500ms (snd ?wr)"
      have step: "getHistoricalFor e (Suc n) k symbol t w = getHistoricalFor e n (Suc k) symbol ?t' ?w2"
        using g go q by (cases ?wr) (simp add: Let_def)
      have hd: "hd data \<in> set data" using go(1) by simp
      from H HttpBody hd go(1) have "sint (Time (hd data)) \<le> sint t" "Time (hd data) \<noteq> min_int64"
        by blast+
      then have lt: "sint ?t' < sint t" by (simp add: sint_pred)
      from Suc.IH [of "Suc k" ?t' ?w2] obtain ts where
        ts: "fetch_times (calls (snd (getHistoricalFor e n (Suc k) symbol ?t' ?w2)))
              = fetch_times (calls ?w2) @ ts"
        "sorted_wrt (\<lambda>a b. sint b < sint a) ts" "\<forall>x\<in>set ts. sint x \<le> sint ?t'" by blast
      have "fetch_times (calls ?w2) = fetch_times (calls w) @ [t]" using ft by simp
      then have "fetch_times (calls (snd (getHistoricalFor e (Suc n) k symbol t w)))
          = fetch_times (calls w) @ (t # ts)" using ts(1) step by simp
      moreover have "sorted_wrt (\<lambda>a b. sint b < sint a) (t # ts)" using ts(2,3) lt by auto
      moreover have "\<forall>x\<in>set (t # ts). sint x \<le> sint t" using ts(3) lt by auto
      ultimately show ?thesis by blast
    qed
  qed
qed

text \<open>
  C6. A write that succeeds returns the first quote of its batch, which is then not
  empty; after it the driver fetches again at that quote's time minus one, in \<open>int64\<close>
  arithmetic; and when every quote of every page has a time at most the time requested,
  and no page starts with a quote at the least \<open>int64\<close>, the times a driver requests
  are strictly decreasing.
\<close>

theorem cursor_walks_backwards:
  "(fst (writeToDB f quotes symbol w) = Returns (q, None) \<longrightarrow> quotes \<noteq> [] \<and> q = hd quotes)
   \<and> (http_Get e symbol k t = HttpBody data derr \<and> \<not> isDummyQuote (last data)
        \<and> fst (writeToDB (db_faults e symbol k) data symbol (called (HttpGet symbol t) w0))
            = Returns (q, None)
      \<longrightarrow> getHistoricalFor e (Suc fuel) k symbol t w0
          = getHistoricalFor e fuel (Suc k) symbol (Time (hd data) - 1)
              (called Sleep500ms
                (snd (writeToDB (db_faults e symbol k) data symbol (called (HttpGet symbol t) w0)))))
   \<and> (pages_bounded e symbol \<and> first_above_min e symbol
      \<longrightarrow> (\<exists>ts. fetch_times (calls (snd (getHistoricalFor e n k symbol t w0)))
                  = fetch_times (calls w0) @ ts
                \<and> sorted_wrt (\<lambda>a b. sint b < sint a) ts))"
proof -
  have A: "quotes \<noteq> [] \<and> q = hd quotes" if "fst (writeToDB f quotes symbol w) = Returns (q, None)"
    using that by (rule writeToDB_success_first)
  have B: "getHistoricalFor e (Suc fuel) k symbol t w0
          = getHistoricalFor e fuel (Suc k) symbol (Time (hd data) - 1)
              (called Sleep500ms
                (snd (writeToDB (db_faults e symbol k) data symbol (called (HttpGet symbol t) w0))))"
    if h: "http_Get e symbol k t = HttpBody data derr \<and> \<not> isDummyQuote (last data)
        \<and> fst (writeToDB (db_faults e symbol k) data symbol (called (HttpGet symbol t) w0))
            = Returns (q, None)"
  proof -
    let ?wr = "writeToDB (db_faults e symbol k) data symbol (called (HttpGet symbol t) w0)"
    from h have r: "fst ?wr = Returns (q, None)" by simp
    from writeToDB_success_first [OF r] have "data \<noteq> []" "q = hd data" by simp_all
    then show ?thesis using h by (cases ?wr) (simp add: get_def Let_def)
  qed
  have C: "\<exists>ts. fetch_times (calls (snd (getHistoricalFor e n k symbol t w0)))
                  = fetch_times (calls w0) @ ts
                \<and> sorted_wrt (\<lambda>a b. sint b < sint a) ts"
    if "pages_bounded e symbol \<and> first_above_min e symbol"
  proof -
    from that have "\<forall>k t data derr. http_Get e symbol k t = HttpBody data derr \<longrightarrow>
      (\<forall>q\<in>set data. sint (Time q) \<le> sint t) \<and> (data \<noteq> [] \<longrightarrow> Time (hd data) \<noteq> min_int64)"
      unfolding pages_bounded_def first_above_min_def by blast
    from getHistoricalFor_fetches [OF this, of n k t w0] show ?thesis by blast
  qed
  from A B C show ?thesis by blast
qed

lemma sint_small [simp]: "sint (1000 :: int64) = 1000" "sint (999 :: int64) = 999" "sint (998 :: int64) = 998"
  by simp_all

theorem cursor_walks_backwards_witness:
  "pages_bounded echo_env ''BTC'' \<and> first_above_min echo_env ''BTC''
   \<and> http_Get echo_env ''BTC'' 0 1000 = HttpBody [quote_at 1000] None
   \<and> \<not> isDummyQuote (last [quote_at 1000])
   \<and> fst (writeToDB (db_faults echo_env ''BTC'' 0) [quote_at 1000] ''BTC''
            (called (HttpGet ''BTC'' 1000) empty_world))
       = Returns (quote_at 1000, None)
   \<and> fetch_times (calls (snd (getHistoricalFor echo_env (Suc (Suc (Suc 0))) 0 ''BTC'' 1000 empty_world)))
       = [1000, 999, 998]
   \<and> sorted_wrt (\<lambda>a b. sint b < sint a) [1000, 999, 998 :: int64]"
proof -
  have m: "(1000 :: int64) \<noteq> min_int64" "(999 :: int64) \<noteq> min_int64" "(998 :: int64) \<noteq> min_int64"
    by (simp_all add: min_int64_def)
  have pb: "pages_bounded echo_env ''BTC''"
    by (auto simp: pages_bounded_def echo_env_def split: if_splits)
  have fm: "first_above_min echo_env ''BTC''"
    by (auto simp: first_above_min_def echo_env_def split: if_splits)
  have pg: "http_Get echo_env ''BTC'' 0 1000 = HttpBody [quote_at 1000] None"
    by (simp add: echo_env_def m)
  have wr: "fst (writeToDB (db_faults echo_env ''BTC'' 0) [quote_at 1000] ''BTC''
            (called (HttpGet ''BTC'' 1000) empty_world)) = Returns (quote_at 1000, None)"
    by (simp add: writeToDB_def store_defs echo_env_def no_faults_def empty_world_def say_def called_def)
  have ft: "fetch_times (calls (snd (getHistoricalFor echo_env (Suc (Suc (Suc 0))) 0 ''BTC'' 1000 empty_world)))
       = [1000, 999, 998]"
    by (simp add: get_def writeToDB_def store_defs echo_env_def no_faults_def empty_world_def
          say_def called_def m)
  from cursor_walks_backwards [where e=echo_env and symbol="''BTC''" and n="Suc (Suc (Suc 0))"
      and k=0 and t=1000 and ?w0.0=empty_world] pb fm
  obtain ts where "fetch_times (calls (snd (getHistoricalFor echo_env (Suc (Suc (Suc 0))) 0 ''BTC'' 1000 empty_world)))
      = fetch_times (calls empty_world) @ ts" "sorted_wrt (\<lambda>a b. sint b < sint a) ts"
    by blast
  then have "sorted_wrt (\<lambda>a b. sint b < sint a) [1000, 999, 998 :: int64]"
    unfolding ft by (simp add: empty_world_def)
  with pb fm pg wr ft show ?thesis by simp
qed

text \<open>
  C6 as first stated, without the condition on the least \<open>int64\<close>, fails: the
  subtraction wraps. The page holds one quote at the least \<open>int64\<close>, which is at most
  any time requested; after the fetch at 5 the driver fetches at the greatest \<open>int64\<close>.
\<close>

theorem cursor_wraps_at_min_int64:
  "pages_bounded (one_page [quote_at min_int64] None) ''BTC''
   \<and> fetch_times (calls (snd (getHistoricalFor (one_page [quote_at min_int64] None)
        (Suc (Suc 0)) 0 ''BTC'' 5 empty_world))) = [5, 0x7FFFFFFFFFFFFFFF]
   \<and> sint (5 :: int64) < sint (0x7FFFFFFFFFFFFFFF :: int64)"
proof -
  have "sint min_int64 \<le> sint t" for t :: int64
    using sint_ge [of t] by (simp add: sint_min_int64)
  then have pb: "pages_bounded (one_page [quote_at min_int64] None) ''BTC''"
    by (simp add: pages_bounded_def one_page_def env_of_def)
  have ft: "fetch_times (calls (snd (getHistoricalFor (one_page [quote_at min_int64] None)
        (Suc (Suc 0)) 0 ''BTC'' 5 empty_world))) = [5, 0x7FFFFFFFFFFFFFFF]"
    by (simp add: get_def writeToDB_def store_defs one_page_def env_of_def no_faults_def
          empty_world_def say_def called_def min_wraps)
  have "sint (5 :: int64) < sint (0x7FFFFFFFFFFFFFFF :: int64)" by simp
  with pb ft show ?thesis by simp
qed

lemmas run_defs = get_def writeToDB_def store_defs env_of_def no_faults_def empty_world_def
  say_def called_def

section \<open>The backfill driver\<close>

text \<open>
  C1. A page that is not empty and whose last quote is a dummy quote ends the driver
  with the signal \<open>Done\<close>, and the driver returns before it calls \<open>writeToDB\<close>: its
  only call is the fetch, and the tables are as they were.
\<close>

theorem getHistoricalFor_done_without_write:
  assumes "http_Get e symbol k t = HttpBody data derr" "data \<noteq> []" "isDummyQuote (last data)"
  shows "getHistoricalFor e (Suc fuel) k symbol t w = (Done symbol, called (HttpGet symbol t) w)
     \<and> tables (snd (getHistoricalFor e (Suc fuel) k symbol t w)) = tables w"
  using assms by (simp add: get_def)

theorem getHistoricalFor_done_without_write_witness:
  "http_Get (one_page [quote_at 10, dummy_at 9] None) ''BTC'' 0 1000
     = HttpBody [quote_at 10, dummy_at 9] None
   \<and> [quote_at 10, dummy_at 9] \<noteq> [] \<and> isDummyQuote (last [quote_at 10, dummy_at 9])
   \<and> getHistoricalFor (one_page [quote_at 10, dummy_at 9] None) (Suc 0) 0 ''BTC'' 1000 btc_world
     = (Done ''BTC'', called (HttpGet ''BTC'' 1000) btc_world)
   \<and> tables (snd (getHistoricalFor (one_page [quote_at 10, dummy_at 9] None) (Suc 0) 0 ''BTC'' 1000
        btc_world)) = tables btc_world"
proof -
  have h: "http_Get (one_page [quote_at 10, dummy_at 9] None) ''BTC'' 0 1000
     = HttpBody [quote_at 10, dummy_at 9] None"
    "[quote_at 10, dummy_at 9] \<noteq> []" "isDummyQuote (last [quote_at 10, dummy_at 9])"
    by (simp_all add: one_page_def env_of_def)
  from getHistoricalFor_done_without_write [OF h, of 0 btc_world] h show ?thesis by simp
qed

text \<open>
  C1 as first stated asks that the real quotes in front of such a page be written before
  the driver ends. They are not: on the page of one real quote and one dummy quote the
  driver ends \<open>Done\<close> and the instrument's table has no row.
\<close>

theorem final_page_real_quotes_dropped:
  "\<not> isDummyQuote (quote_at 10) \<and> isDummyQuote (last [quote_at 10, dummy_at 9])
   \<and> fst (getHistoricalFor (one_page [quote_at 10, dummy_at 9] None) (Suc 0) 0 ''BTC'' 1000
        empty_world) = Done ''BTC''
   \<and> rows_of (tables (snd (getHistoricalFor (one_page [quote_at 10, dummy_at 9] None) (Suc 0) 0
        ''BTC'' 1000 empty_world))) ''BTC'' = []"
  by (simp add: run_defs one_page_def rows_of_def)

section \<open>Transport errors\<close>

lemma getHistoricalFor_by_pass:
  "getHistoricalFor e (Suc fuel) k symbol t w =
     (case getHistoricalFor_pass e k symbol t w of
        (Inl out, w') \<Rightarrow> (out, w')
      | (Inr untilDate, w') \<Rightarrow> getHistoricalFor e fuel (Suc k) symbol untilDate w')"
  by (simp add: getHistoricalFor_pass_def Let_def
        split: prod.splits result.splits option.splits)

lemma take_turn_exited: "exited p \<noteq> None \<Longrightarrow> take_turn e t p = p"
  by (simp add: take_turn_def)

lemma run_exited: "exited p \<noteq> None \<Longrightarrow> run e turns p = p"
  by (induction turns) (simp_all add: take_turn_exited)

lemma run_append: "run e (ts @ us) p = run e us (run e ts p)"
  by (induction ts arbitrary: p) simp_all

text \<open>
  C2. A transport error ends the process: \<open>get\<close> logs it with \<open>log.Fatal\<close>, so the
  driver sends neither \<open>Done\<close> nor \<open>Failed\<close>. In whatever state the process is, when a
  running goroutine takes its turn and its fetch fails in transport, the process has
  exited with status 1; no goroutine has changed, none is waiting to send because of
  it, \<open>main\<close> has received nothing more, and no later turn of any goroutine or of
  \<open>main\<close> changes anything.
\<close>

theorem transport_error_exits_process:
  "(http_Get e symbol k t = HttpError err
      \<longrightarrow> getHistoricalFor e (Suc fuel) k symbol t w
          = (ProcessExit err, say (LogFatal err) (called (HttpGet symbol t) w)))
   \<and> (exited p = None \<and> i < length (routines p) \<and> routines p ! i = Running symbol k t
        \<and> http_Get e symbol k t = HttpError err
      \<longrightarrow> exited (take_turn e (Step i) p) = Some Exit1
          \<and> routines (take_turn e (Step i) p) = routines p
          \<and> received (take_turn e (Step i) p) = received p
          \<and> state (take_turn e (Step i) p)
              = say (LogFatal err) (called (HttpGet symbol t) (state p))
          \<and> run e (Step i # turns) p = take_turn e (Step i) p)"
proof -
  have A: "getHistoricalFor e (Suc fuel) k symbol t w
          = (ProcessExit err, say (LogFatal err) (called (HttpGet symbol t) w))"
    if "http_Get e symbol k t = HttpError err"
    using that by (simp add: get_def)
  have B: "exited (take_turn e (Step i) p) = Some Exit1
          \<and> routines (take_turn e (Step i) p) = routines p
          \<and> received (take_turn e (Step i) p) = received p
          \<and> state (take_turn e (Step i) p)
              = say (LogFatal err) (called (HttpGet symbol t) (state p))
          \<and> run e (Step i # turns) p = take_turn e (Step i) p"
    if h: "exited p = None \<and> i < length (routines p) \<and> routines p ! i = Running symbol k t
        \<and> http_Get e symbol k t = HttpError err"
  proof -
    from h have pass: "getHistoricalFor_pass e k symbol t (state p)
        = (Inl (ProcessExit err), say (LogFatal err) (called (HttpGet symbol t) (state p)))"
      by (simp add: getHistoricalFor_pass_def get_def)
    have tt: "take_turn e (Step i) p
        = p\<lparr>state := say (LogFatal err) (called (HttpGet symbol t) (state p)),
            exited := Some Exit1\<rparr>"
      using h by (simp add: take_turn_def pass after_pass_def)
    have "run e (Step i # turns) p = run e turns (take_turn e (Step i) p)" by simp
    also have "\<dots> = take_turn e (Step i) p" by (rule run_exited) (simp add: tt)
    finally show ?thesis by (simp add: tt)
  qed
  from A B show ?thesis by blast
qed

theorem transport_error_exits_process_witness:
  "http_Get btc_down ''BTC'' 0 1000 = HttpError (OtherError ''network is unreachable'')
   \<and> exited (main btc_down [Launch, Launch, Step 1] [''BTC'', ''ETH''] empty_world) = None
   \<and> routines (main btc_down [Launch, Launch, Step 1] [''BTC'', ''ETH''] empty_world)
       = [Running ''BTC'' 0 1000, Sending (OnDonec ''ETH'')]
   \<and> exited (main btc_down [Launch, Launch, Step 1, Step 0, Receive 1, Return] [''BTC'', ''ETH'']
        empty_world) = Some Exit1
   \<and> routines (main btc_down [Launch, Launch, Step 1, Step 0, Receive 1, Return] [''BTC'', ''ETH'']
        empty_world)
       = [Running ''BTC'' 0 1000, Sending (OnDonec ''ETH'')]
   \<and> received (main btc_down [Launch, Launch, Step 1, Step 0, Receive 1, Return] [''BTC'', ''ETH'']
        empty_world) = 0"
proof -
  let ?E = "OtherError ''network is unreachable''"
  let ?p = "main btc_down [Launch, Launch, Step 1] [''BTC'', ''ETH''] empty_world"
  have h: "http_Get btc_down ''BTC'' 0 1000 = HttpError ?E"
    by (simp add: btc_down_def env_of_def)
  have ex: "exited ?p = None"
    and ro: "routines ?p = [Running ''BTC'' 0 1000, Sending (OnDonec ''ETH'')]"
    and re: "received ?p = 0"
    by (simp_all add: main_def take_turn_def after_pass_def getHistoricalFor_pass_def get_def
          btc_down_def env_of_def empty_world_def say_def called_def)
  have sp: "main btc_down [Launch, Launch, Step 1, Step 0, Receive 1, Return] [''BTC'', ''ETH'']
        empty_world = run btc_down (Step 0 # [Receive 1, Return]) ?p"
    unfolding main_def using run_append [of btc_down "[Launch, Launch, Step 1]"
      "[Step 0, Receive 1, Return]"] by simp
  from transport_error_exits_process [where e=btc_down and symbol="''BTC''" and k=0 and t=1000
      and err="?E" and p="?p" and i=0 and turns="[Receive 1, Return]"] h ex ro
  have "exited (take_turn btc_down (Step 0) ?p) = Some Exit1
      \<and> routines (take_turn btc_down (Step 0) ?p) = routines ?p
      \<and> received (take_turn btc_down (Step 0) ?p) = received ?p
      \<and> run btc_down (Step 0 # [Receive 1, Return]) ?p = take_turn btc_down (Step 0) ?p"
    by simp
  with h ex ro re sp show ?thesis by simp
qed

text \<open>
  C2 as first stated asks that only the failing instrument's driver end, in \<open>Failed\<close>,
  and that the process go on. With BTC unreachable: ETH asked alone completes and
  \<open>main\<close> returns; with both asked, the process exits with status 1 when BTC's fetch
  fails, whether ETH's driver has completed before it or has not yet run, and BTC's
  driver has sent nothing.
\<close>

theorem transport_error_aborts_all:
  "exited (main btc_down [Launch, Step 0, Receive 0, Return] [''ETH''] empty_world) = Some Exit0
   \<and> exited (main btc_down [Launch, Launch, Step 1, Receive 1, Step 0, Receive 0, Return]
        [''BTC'', ''ETH''] empty_world) = Some Exit1
   \<and> routines (main btc_down [Launch, Launch, Step 1, Receive 1, Step 0, Receive 0, Return]
        [''BTC'', ''ETH''] empty_world) = [Running ''BTC'' 0 1000, Ended]
   \<and> exited (main btc_down [Launch, Launch, Step 0, Step 1, Receive 1, Return]
        [''BTC'', ''ETH''] empty_world) = Some Exit1
   \<and> routines (main btc_down [Launch, Launch, Step 0, Step 1, Receive 1, Return]
        [''BTC'', ''ETH''] empty_world) = [Running ''BTC'' 0 1000, Running ''ETH'' 0 1000]"
  by (simp add: main_def take_turn_def after_pass_def getHistoricalFor_pass_def get_def
        btc_down_def env_of_def empty_world_def say_def called_def)

section \<open>Malformed bodies\<close>

lemma get_well_decoded:
  "get (well_decoded e) k symbol t w = get e k symbol t w"
  by (cases "http_Get e symbol k t") (simp_all add: get_def well_decoded_def)

lemma getHistoricalFor_well_decoded:
  "getHistoricalFor (well_decoded e) n k symbol t w = getHistoricalFor e n k symbol t w"
proof (induction n arbitrary: k t w)
  case 0
  show ?case by simp
next
  case (Suc n)
  have f: "db_faults (well_decoded e) = db_faults e" by (simp add: well_decoded_def)
  show ?case
    by (simp add: get_well_decoded f Suc.IH
          split: prod.split result.split option.split)
qed

text \<open>
  C3. \<open>get\<close> has no error result: of a body, malformed or not, it returns the records the
  decoder left. The driver goes on with them as it would had the body been well formed:
  same signal, same tables, same calls.
\<close>

theorem decode_error_is_ignored:
  "(http_Get e symbol k t = HttpBody data derr \<longrightarrow> fst (get e k symbol t w) = Returns data)
   \<and> fst (getHistoricalFor e n k symbol t w) = fst (getHistoricalFor (well_decoded e) n k symbol t w)
   \<and> tables (snd (getHistoricalFor e n k symbol t w))
       = tables (snd (getHistoricalFor (well_decoded e) n k symbol t w))
   \<and> calls (snd (getHistoricalFor e n k symbol t w))
       = calls (snd (getHistoricalFor (well_decoded e) n k symbol t w))"
  by (simp add: getHistoricalFor_well_decoded get_def)

theorem decode_error_is_ignored_witness:
  "http_Get garbled_first ''BTC'' 0 1000
     = HttpBody [quote_at 10] (Some (OtherError ''json: cannot unmarshal''))
   \<and> fst (get garbled_first 0 ''BTC'' 1000 empty_world) = Returns [quote_at 10]
   \<and> fst (getHistoricalFor (well_decoded garbled_first) (Suc (Suc 0)) 0 ''BTC'' 1000 empty_world)
       = Done ''BTC''
   \<and> fst (getHistoricalFor garbled_first (Suc (Suc 0)) 0 ''BTC'' 1000 empty_world) = Done ''BTC''"
proof -
  have h: "http_Get garbled_first ''BTC'' 0 1000
     = HttpBody [quote_at 10] (Some (OtherError ''json: cannot unmarshal''))"
    by (simp add: garbled_first_def env_of_def)
  have d: "fst (getHistoricalFor (well_decoded garbled_first) (Suc (Suc 0)) 0 ''BTC'' 1000 empty_world)
       = Done ''BTC''"
    by (simp add: run_defs garbled_first_def well_decoded_def)
  note t = decode_error_is_ignored [where e=garbled_first and symbol="''BTC''" and k=0 and t=1000
      and data="[quote_at 10]" and derr="Some (OtherError ''json: cannot unmarshal'')"
      and w=empty_world and n="Suc (Suc 0)"]
  from t h have g: "fst (get garbled_first 0 ''BTC'' 1000 empty_world) = Returns [quote_at 10]"
    by blast
  from t d have "fst (getHistoricalFor garbled_first (Suc (Suc 0)) 0 ''BTC'' 1000 empty_world)
      = Done ''BTC''" by simp
  with h g d show ?thesis by simp
qed

text \<open>
  C3 as first stated asks that a malformed body be reported as an error and end the
  instrument's loop. Here the first body is malformed and the decoder filled one record:
  \<open>get\<close> returns it, nothing is logged, the record is written, the driver fetches
  again and ends \<open>Done\<close>.
\<close>

theorem malformed_body_goes_unreported:
  "get garbled_first 0 ''BTC'' 1000 empty_world
     = (Returns [quote_at 10], called (HttpGet ''BTC'' 1000) empty_world)
   \<and> fst (getHistoricalFor garbled_first (Suc (Suc 0)) 0 ''BTC'' 1000 empty_world) = Done ''BTC''
   \<and> tables (snd (getHistoricalFor garbled_first (Suc (Suc 0)) 0 ''BTC'' 1000 empty_world)) ''BTC''
       = Some [quote_at 10]
   \<and> logs (snd (getHistoricalFor garbled_first (Suc (Suc 0)) 0 ''BTC'' 1000 empty_world)) = []
   \<and> fetch_times (calls (snd (getHistoricalFor garbled_first (Suc (Suc 0)) 0 ''BTC'' 1000
        empty_world))) = [1000, 9]"
  by (simp add: run_defs garbled_first_def)

section \<open>Empty pages\<close>

text \<open>
  C9. An empty page is not guarded: the driver reads \<open>data[len(data)-1]\<close> and panics,
  which ends the process with status 2 when its goroutine takes its turn. \<open>writeToDB\<close> has no guard either: on an empty
  batch it commits and then panics at \<open>quotes[0]\<close>.
\<close>

theorem empty_page_panics:
  "getHistoricalFor (one_page [] None) (Suc 0) 0 ''BTC'' 1000 empty_world
     = (Panicked, called (HttpGet ''BTC'' 1000) empty_world)
   \<and> fst (writeToDB no_faults [] ''BTC'' empty_world) = Panics
   \<and> calls (snd (writeToDB no_faults [] ''BTC'' empty_world))
       = [QueryRow ''BTC'', ExecCreateTable ''BTC'', DbBegin, TxCommit]
   \<and> exited (main (one_page [] None) [Launch, Step 0] [''BTC''] empty_world) = Some Exit2"
  by (simp add: main_def take_turn_def after_pass_def getHistoricalFor_pass_def run_defs
        one_page_def)

end
